theory Spec2Isabelle
  imports Complex_Main
begin

section \<open>Data model\<close>

text \<open>
  Python strings are modelled as \<open>string\<close>: a character is a code point in the range
  0..255, and \<open>length\<close> is Python's \<open>len\<close>. Python's unbounded integers are \<open>int\<close>;
  counters that only ever count up from zero are \<open>nat\<close>. Floating-point numbers
  (embedding components, distances, similarities) are modelled as exact rationals.
\<close>

datatype error =
    Exception string
  | ValueError string
  | AssertionError
  | IndexError
  | ZeroDivisionError
  | FileNotFoundError string

text \<open>A value of a metadata dictionary (\<open>Dict[str, Any]\<close>): a string or an integer.\<close>

datatype pyval = Str string | Num int

text \<open>\<open>DocumentChunk\<close> (document_processor.py): the dataclass with its three fields. The
  metadata dictionary is an association list in insertion order.\<close>

record DocumentChunk =
  content :: string
  metadata :: "(string \<times> pyval) list"
  chunk_id :: string

text \<open>\<open>DocumentProcessor.__init__\<close>: the three configured sizes.\<close>

record DocumentProcessor =
  chunk_size :: int
  chunk_overlap :: int
  min_chunk_size :: int

section \<open>Document processor\<close>

subsection \<open>Character classes of the regular expressions\<close>

text \<open>\<open>\s\<close>, \<open>\d\<close> and \<open>\w\<close> of Python's \<open>re\<close> on \<open>str\<close> patterns, for the code points
  0..255.\<close>

definition is_space :: "char \<Rightarrow> bool" where
  "is_space c =
     (let n = (of_char c :: nat)
      in (9 \<le> n \<and> n \<le> 13) \<or> (28 \<le> n \<and> n \<le> 32) \<or> n = 133 \<or> n = 160)"

definition is_digit :: "char \<Rightarrow> bool" where
  "is_digit c = (let n = (of_char c :: nat) in 48 \<le> n \<and> n \<le> 57)"

definition is_word :: "char \<Rightarrow> bool" where
  "is_word c =
     (let n = (of_char c :: nat)
      in (48 \<le> n \<and> n \<le> 57) \<or> (65 \<le> n \<and> n \<le> 90) \<or> n = 95 \<or> (97 \<le> n \<and> n \<le> 122)
         \<or> n = 170 \<or> n = 178 \<or> n = 179 \<or> n = 181 \<or> n = 185 \<or> n = 186
         \<or> n = 188 \<or> n = 189 \<or> n = 190
         \<or> (192 \<le> n \<and> n \<le> 214) \<or> (216 \<le> n \<and> n \<le> 246) \<or> (248 \<le> n \<and> n \<le> 255))"

subsection \<open>Strings\<close>

text \<open>\<open>sep.join(parts)\<close>.\<close>

fun join :: "string \<Rightarrow> string list \<Rightarrow> string" where
  "join sep [] = []"
| "join sep [x] = x"
| "join sep (x # y # ys) = x @ sep @ join sep (y # ys)"

text \<open>\<open>str.strip()\<close>: whitespace removed at both ends.\<close>

definition strip :: "string \<Rightarrow> string" where
  "strip s = rev (dropWhile is_space (rev (dropWhile is_space s)))"

text \<open>\<open>str(n)\<close> for a non-negative integer, and \<open>int(s)\<close> for a string of decimal
  digits.\<close>

definition digit_char :: "nat \<Rightarrow> char" where
  "digit_char n = ''0123456789'' ! (n mod 10)"

fun str_nat :: "nat \<Rightarrow> string" where
  "str_nat n = (if n < 10 then [digit_char n] else str_nat (n div 10) @ [digit_char n])"

declare str_nat.simps [simp del]

definition int_of_digits :: "string \<Rightarrow> nat" where
  "int_of_digits ds = foldl (\<lambda>a c. 10 * a + (of_char c - 48)) 0 ds"

subsection \<open>clean_text\<close>

text \<open>\<open>re.sub(r'\s+', ' ', text)\<close>: every maximal run of whitespace becomes one space. The
  flag says whether the previous character belonged to a run already replaced.\<close>

fun sub_whitespace :: "bool \<Rightarrow> string \<Rightarrow> string" where
  "sub_whitespace in_run [] = []"
| "sub_whitespace in_run (c # cs) =
     (if is_space c
      then (if in_run then sub_whitespace True cs else CHR '' '' # sub_whitespace True cs)
      else c # sub_whitespace False cs)"

text \<open>\<open>re.sub(r'[^\w\s\.\,\?\!\:\;\-\(\)\[\]\n]', '', text)\<close>: the characters that are
  kept.\<close>

definition kept_char :: "char \<Rightarrow> bool" where
  "kept_char c = (is_word c \<or> is_space c \<or> c \<in> set ''.,?!:;-()[]'' \<or> c = CHR 0x0A)"

text \<open>\<open>re.sub(r'\n{3,}', '\n\n', text)\<close>: a run of three or more newlines becomes two;
  shorter runs stay. The counter is the length of the run read so far.\<close>

fun sub_newlines :: "nat \<Rightarrow> string \<Rightarrow> string" where
  "sub_newlines n [] = replicate (min n 2) (CHR 0x0A)"
| "sub_newlines n (c # cs) =
     (if c = CHR 0x0A then sub_newlines (Suc n) cs
      else replicate (min n 2) (CHR 0x0A) @ c # sub_newlines 0 cs)"

definition clean_text :: "string \<Rightarrow> string" where
  "clean_text text =
     (let text1 = sub_whitespace False text;
          text2 = filter kept_char text1;
          text3 = sub_newlines 0 text2
      in strip text3)"

subsection \<open>The two splits of chunk_text\<close>

text \<open>A match of \<open>\[PAGE_(\d+)\]\<close> at the head of a string: the digits of the group.\<close>

definition match_page_marker :: "string \<Rightarrow> string option" where
  "match_page_marker s =
     (if take 6 s = ''[PAGE_''
      then (let ds = takeWhile is_digit (drop 6 s);
                r = dropWhile is_digit (drop 6 s)
            in if ds \<noteq> [] \<and> r \<noteq> [] \<and> hd r = CHR '']'' then Some ds else None)
      else None)"

text \<open>\<open>re.split(r'\[PAGE_(\d+)\]', text)\<close>: the text between the matches, alternating with
  the digits of each match. \<open>skip\<close> counts the characters of the current match still to
  be passed over; \<open>cur\<close> is the piece being read.\<close>

fun split_pages :: "nat \<Rightarrow> string \<Rightarrow> string \<Rightarrow> string list" where
  "split_pages skip cur [] = [cur]"
| "split_pages skip cur (c # cs) =
     (if skip > 0 then split_pages (skip - 1) cur cs
      else (case match_page_marker (c # cs) of
              Some ds \<Rightarrow> cur # ds # split_pages (6 + length ds) [] cs
            | None \<Rightarrow> split_pages 0 (cur @ [c]) cs))"

text \<open>\<open>re.split(r'(?<=[.!?])\s+', cleaned_text)\<close>: a match is a maximal run of whitespace
  that directly follows one of \<open>. ! ?\<close>. \<open>skipping\<close> holds inside a match.\<close>

fun split_sentences :: "bool \<Rightarrow> string \<Rightarrow> string \<Rightarrow> string list" where
  "split_sentences skipping cur [] = [cur]"
| "split_sentences skipping cur (c # cs) =
     (if skipping \<and> is_space c then split_sentences True cur cs
      else if is_space c \<and> cur \<noteq> [] \<and> last cur \<in> set ''.!?''
      then cur # split_sentences True [] cs
      else split_sentences False (cur @ [c]) cs)"

subsection \<open>chunk_text\<close>

text \<open>The loop \<open>for i in range(1, len(pages), 2)\<close>: the pieces at odd positions are page
  numbers, each followed by its page text (the empty string when it is the last piece).
  The piece before the first marker is not used.\<close>

fun pair_pages :: "string list \<Rightarrow> (nat \<times> string) list" where
  "pair_pages (num # txt # rest) = (int_of_digits num, txt) # pair_pages rest"
| "pair_pages [num] = [(int_of_digits num, [])]"
| "pair_pages [] = []"

definition page_contents :: "string \<Rightarrow> (nat \<times> string) list" where
  "page_contents text =
     (let pages = split_pages 0 [] text;
          pc = pair_pages (tl pages)
      in if pc = [] then [(1, text)] else pc)"

text \<open>The \<open>DocumentChunk(...)\<close> built at both places of the loop.\<close>

definition make_chunk :: "string \<Rightarrow> nat \<Rightarrow> nat \<Rightarrow> string \<Rightarrow> DocumentChunk" where
  "make_chunk source page_num idx chunk_text =
     \<lparr> content = chunk_text,
       metadata = [(''source'', Str source), (''page'', Num (int page_num)),
                   (''chunk_index'', Num (int idx)),
                   (''char_count'', Num (int (length chunk_text)))],
       chunk_id = source @ ''_page'' @ str_nat page_num @ ''_chunk'' @ str_nat idx \<rparr>"

text \<open>The variables of the sentence loop: the buffer, its running length, the chunks
  emitted so far (over all pages) and the next chunk index.\<close>

record chunker =
  current_chunk :: "string list"
  current_length :: int
  emitted :: "DocumentChunk list"
  chunk_index :: nat

text \<open>\<open>if len(chunk_text) >= self.min_chunk_size: chunks.append(...); chunk_index += 1\<close>.\<close>

definition emit :: "DocumentProcessor \<Rightarrow> string \<Rightarrow> nat \<Rightarrow> chunker \<Rightarrow> chunker" where
  "emit dp source page_num st =
     (let chunk_text = join '' '' (current_chunk st)
      in if int (length chunk_text) \<ge> min_chunk_size dp
         then st \<lparr> emitted := emitted st @ [make_chunk source page_num (chunk_index st) chunk_text],
                   chunk_index := chunk_index st + 1 \<rparr>
         else st)"

text \<open>One iteration of \<open>for sentence in sentences\<close>.\<close>

definition sentence_step :: "DocumentProcessor \<Rightarrow> string \<Rightarrow> nat \<Rightarrow> chunker \<Rightarrow> string \<Rightarrow> chunker" where
  "sentence_step dp source page_num st sentence =
     (let sentence_length = int (length sentence)
      in if current_length st + sentence_length > chunk_size dp \<and> current_chunk st \<noteq> []
         then (let st' = emit dp source page_num st;
                   overlap_text = join '' '' (current_chunk st)
               in if int (length overlap_text) > chunk_overlap dp
                  then st' \<lparr> current_chunk := [sentence], current_length := sentence_length \<rparr>
                  else st' \<lparr> current_chunk := [sentence], current_length := sentence_length \<rparr>)
         else st \<lparr> current_chunk := current_chunk st @ [sentence],
                   current_length := current_length st + sentence_length + 1 \<rparr>)"

text \<open>One iteration of \<open>for page_num, page_text in page_contents\<close>, from the emitted
  chunks and the chunk index to their new values.\<close>

definition page_step ::
  "DocumentProcessor \<Rightarrow> string \<Rightarrow> DocumentChunk list \<times> nat \<Rightarrow> nat \<times> string
     \<Rightarrow> DocumentChunk list \<times> nat" where
  "page_step dp source acc page =
     (let page_num = fst page;
          cleaned_text = clean_text (snd page);
          sentences = split_sentences False [] cleaned_text;
          st0 = \<lparr> current_chunk = [], current_length = 0,
                  emitted = fst acc, chunk_index = snd acc \<rparr>;
          st = foldl (sentence_step dp source page_num) st0 sentences;
          st' = (if current_chunk st \<noteq> [] then emit dp source page_num st else st)
      in (emitted st', chunk_index st'))"

definition chunk_text :: "DocumentProcessor \<Rightarrow> string \<Rightarrow> string \<Rightarrow> DocumentChunk list" where
  "chunk_text dp text source = fst (foldl (page_step dp source) ([], 0) (page_contents text))"


section \<open>Vector store manager\<close>

subsection \<open>The collaborators outside the repository\<close>

text \<open>An embedding vector. The components are exact rationals.\<close>

type_synonym vec = "rat list"

text \<open>The embeddings endpoint of the OpenAI client
  (\<open>client.embeddings.create(model=..., input=...)\<close>), taken as a parameter: from the
  model name, the number of requests made before this one and the input texts, either an
  error message (the call raised) or the vectors of \<open>response.data\<close>. The request
  counter makes every sequence of answers and failures expressible.\<close>

type_synonym embedding_service = "string \<Rightarrow> nat \<Rightarrow> string list \<Rightarrow> string + vec list"

text \<open>The chat-completions endpoint (\<open>client.chat.completions.create\<close>): from the model
  name, the number of requests made before, the system prompt and the user prompt,
  either an error message or \<open>response.choices[0].message.content\<close>.\<close>

type_synonym completion_service = "string \<Rightarrow> nat \<Rightarrow> string \<Rightarrow> string \<Rightarrow> string + string"

text \<open>\<open>faiss.IndexFlatL2\<close>: the dimension \<open>d\<close> and the stored vectors in insertion order
  (\<open>ntotal\<close> is their number).\<close>

record faiss_index =
  dim :: nat
  vectors :: "vec list"

text \<open>The squared Euclidean distance, which \<open>IndexFlatL2\<close> reports.\<close>

definition l2sqr :: "vec \<Rightarrow> vec \<Rightarrow> rat" where
  "l2sqr x y = sum_list (map2 (\<lambda>a b. (a - b) * (a - b)) x y)"

text \<open>The largest finite single-precision number: the distance \<open>IndexFlatL2.search\<close>
  reports at the positions it could not fill.\<close>

definition FLT_MAX :: rat where
  "FLT_MAX = 340282346638528859811704183484516925440"

text \<open>\<open>index.add(x)\<close> of the FAISS Python wrapper: \<open>n, d = x.shape\<close> fails on an array
  that is not two-dimensional, then \<open>assert d == self.d\<close>.\<close>

definition index_add :: "faiss_index \<Rightarrow> vec list \<Rightarrow> error + faiss_index" where
  "index_add ix x =
     (if x = [] then Inl (ValueError ''not enough values to unpack (expected 2, got 1)'')
      else if length (hd x) \<noteq> dim ix then Inl AssertionError
      else Inr (ix \<lparr> vectors := vectors ix @ x \<rparr>))"

text \<open>\<open>index.search(x, k)\<close> for one query row: \<open>assert d == self.d\<close>, \<open>assert k > 0\<close>,
  then the exact search. The result rows always have \<open>k\<close> entries: the \<open>k\<close> nearest stored
  vectors by ascending distance (ties by ascending position), and, when fewer than \<open>k\<close>
  vectors are stored, label \<open>-1\<close> with distance \<open>FLT_MAX\<close> at the remaining positions.\<close>

definition index_search :: "faiss_index \<Rightarrow> vec \<Rightarrow> int \<Rightarrow> error + (rat list \<times> int list)" where
  "index_search ix q k =
     (if length q \<noteq> dim ix then Inl AssertionError
      else if k \<le> 0 then Inl AssertionError
      else (let scored = zip (map (l2sqr q) (vectors ix)) (map int [0 ..< length (vectors ix)]);
                best = take (nat k) (sort_key fst scored);
                filled = best @ replicate (nat k - length best) (FLT_MAX, - 1)
            in Inr (map fst filled, map snd filled)))"

text \<open>\<open>np.array(rows, dtype='float32')\<close>: rows of different lengths are refused.\<close>

definition np_array :: "vec list \<Rightarrow> error + vec list" where
  "np_array rows =
     (if list_all (\<lambda>v. length v = length (hd rows)) rows then Inr rows
      else Inl (ValueError ''setting an array element with a sequence''))"

text \<open>The files of the directory tree, by path. A file written by \<open>faiss.write_index\<close>,
  by \<open>pickle.dump\<close> of the chunk list, or by \<open>json.dump\<close> of the metadata.\<close>

record store_metadata =
  md_embedding_model :: string
  md_dimension :: nat
  num_chunks :: nat
  num_embeddings :: nat

datatype stored_file = FaissFile faiss_index | PickleFile "DocumentChunk list" | JsonFile store_metadata

text \<open>What lies outside the objects: the requests made so far to the two endpoints and the
  files.\<close>

record world =
  embed_calls :: nat
  chat_calls :: nat
  files :: "string \<rightharpoonup> stored_file"

subsection \<open>The manager\<close>

record VectorStoreManager =
  embedding_model :: string
  dimension :: nat
  index :: faiss_index
  chunks :: "DocumentChunk list"
  embeddings :: "vec list"

text \<open>\<open>__init__\<close>, for an environment in which the API key is set and both libraries are
  installed.\<close>

definition new_manager :: "string \<Rightarrow> nat \<Rightarrow> VectorStoreManager" where
  "new_manager model d =
     \<lparr> embedding_model = model, dimension = d, index = \<lparr> dim = d, vectors = [] \<rparr>,
       chunks = [], embeddings = [] \<rparr>"

text \<open>\<open>create_embedding\<close>: one request with the text as input; any failure is raised again
  as \<open>Exception("Failed to create embedding: ...")\<close>.\<close>

definition create_embedding ::
  "embedding_service \<Rightarrow> VectorStoreManager \<Rightarrow> string \<Rightarrow> world \<Rightarrow> (error + vec) \<times> world" where
  "create_embedding svc m text w =
     (let w' = w \<lparr> embed_calls := Suc (embed_calls w) \<rparr>
      in case svc (embedding_model m) (embed_calls w) [text] of
           Inl e \<Rightarrow> (Inl (Exception (''Failed to create embedding: '' @ e)), w')
         | Inr [] \<Rightarrow> (Inl (Exception ''Failed to create embedding: list index out of range''), w')
         | Inr (v # _) \<Rightarrow> (Inr v, w'))"

text \<open>The slices \<open>texts[i:i + batch_size]\<close> for \<open>i\<close> in \<open>range(0, len(texts), batch_size)\<close>,
  for a positive step.\<close>

function batches :: "nat \<Rightarrow> 'a list \<Rightarrow> 'a list list" where
  "batches n xs = (if n = 0 \<or> xs = [] then [] else take n xs # batches n (drop n xs))"
  by pat_completeness auto
termination
  by (relation "measure (\<lambda>(n, xs). length xs)") auto

declare batches.simps [simp del]

text \<open>The body of the loop of \<open>create_embeddings_batch\<close>: one request per batch; when it
  fails, zero vectors of the configured dimension for the texts of that batch.\<close>

definition batch_step ::
  "embedding_service \<Rightarrow> VectorStoreManager \<Rightarrow> vec list \<times> world \<Rightarrow> string list \<Rightarrow> vec list \<times> world" where
  "batch_step svc m acc batch =
     (let w = snd acc; w' = w \<lparr> embed_calls := Suc (embed_calls w) \<rparr>
      in case svc (embedding_model m) (embed_calls w) batch of
           Inr batch_embeddings \<Rightarrow> (fst acc @ batch_embeddings, w')
         | Inl e \<Rightarrow> (fst acc @ replicate (length batch) (replicate (dimension m) 0), w'))"

text \<open>\<open>create_embeddings_batch\<close>. \<open>range\<close> refuses a zero step and is empty for a negative
  one.\<close>

definition create_embeddings_batch ::
  "embedding_service \<Rightarrow> VectorStoreManager \<Rightarrow> string list \<Rightarrow> int \<Rightarrow> world
     \<Rightarrow> (error + vec list) \<times> world" where
  "create_embeddings_batch svc m texts batch_size w =
     (if batch_size = 0 then (Inl (ValueError ''range() arg 3 must not be zero''), w)
      else if batch_size < 0 then (Inr [], w)
      else (let r = foldl (batch_step svc m) ([], w) (batches (nat batch_size) texts)
            in (Inr (fst r), snd r)))"

text \<open>\<open>add_documents\<close>: the outcome (\<open>None\<close>, or the exception raised), the manager and the
  world afterwards.\<close>

definition add_documents ::
  "embedding_service \<Rightarrow> DocumentChunk list \<Rightarrow> VectorStoreManager \<times> world
     \<Rightarrow> (error + unit) \<times> VectorStoreManager \<times> world" where
  "add_documents svc cs mw =
     (let m = fst mw; w = snd mw
      in if cs = [] then (Inr (), m, w)
         else (let texts = map content cs;
                   r = create_embeddings_batch svc m texts 100 w;
                   w' = snd r
               in case fst r of
                    Inl e \<Rightarrow> (Inl e, m, w')
                  | Inr embs \<Rightarrow>
                      (case np_array embs of
                         Inl e \<Rightarrow> (Inl e, m, w')
                       | Inr embeddings_array \<Rightarrow>
                           (case index_add (index m) embeddings_array of
                              Inl e \<Rightarrow> (Inl e, m, w')
                            | Inr ix \<Rightarrow>
                                (Inr (),
                                 m \<lparr> index := ix, chunks := chunks m @ cs,
                                     embeddings := embeddings m @ embs \<rparr>,
                                 w')))))"

text \<open>\<open>xs[i]\<close> for a list and an integer: a negative index counts from the end.\<close>

definition py_index :: "'a list \<Rightarrow> int \<Rightarrow> error + 'a" where
  "py_index xs i =
     (if 0 \<le> i \<and> i < int (length xs) then Inr (xs ! nat i)
      else if i < 0 \<and> - int (length xs) \<le> i then Inr (xs ! nat (int (length xs) + i))
      else Inl IndexError)"

text \<open>The loop \<open>for i, idx in enumerate(indices[0])\<close> of \<open>search\<close>, over the labels paired
  with their distances.\<close>

fun search_results ::
  "DocumentChunk list \<Rightarrow> (int \<times> rat) list \<Rightarrow> error + (DocumentChunk \<times> rat) list" where
  "search_results cs [] = Inr []"
| "search_results cs ((idx, distance) # rest) =
     (if idx < int (length cs)
      then (case py_index cs idx of
              Inl e \<Rightarrow> Inl e
            | Inr chunk \<Rightarrow>
                if 1 + distance = 0 then Inl ZeroDivisionError
                else (case search_results cs rest of
                        Inl e \<Rightarrow> Inl e
                      | Inr results \<Rightarrow> Inr ((chunk, 1 / (1 + distance)) # results)))
      else search_results cs rest)"

definition search ::
  "embedding_service \<Rightarrow> VectorStoreManager \<Rightarrow> string \<Rightarrow> int \<Rightarrow> world
     \<Rightarrow> (error + (DocumentChunk \<times> rat) list) \<times> world" where
  "search svc m query k w =
     (if chunks m = [] then (Inr [], w)
      else (case create_embedding svc m query w of
              (Inl e, w') \<Rightarrow> (Inl e, w')
            | (Inr query_embedding, w') \<Rightarrow>
                (case index_search (index m) query_embedding k of
                   Inl e \<Rightarrow> (Inl e, w')
                 | Inr (distances, indices) \<Rightarrow>
                     (search_results (chunks m) (zip indices distances), w'))))"

text \<open>\<open>round(x, 3)\<close>: to the nearest multiple of one thousandth, a tie to the even one.\<close>

definition round_half_even :: "rat \<Rightarrow> int" where
  "round_half_even x =
     (let f = \<lfloor>x\<rfloor>; r = x - of_int f
      in if r < 1 / 2 then f else if r > 1 / 2 then f + 1 else if even f then f else f + 1)"

definition round3 :: "rat \<Rightarrow> rat" where
  "round3 x = of_int (round_half_even (x * 1000)) / 1000"

text \<open>One entry of the source list of \<open>get_context_for_query\<close>: the dictionary with the keys
  \<open>source\<close>, \<open>page\<close> and \<open>similarity\<close>.\<close>

record citation =
  cite_source :: pyval
  cite_page :: pyval
  cite_similarity :: rat

text \<open>\<open>chunk.metadata.get(key, 'unknown')\<close>.\<close>

definition metadata_get :: "DocumentChunk \<Rightarrow> string \<Rightarrow> pyval" where
  "metadata_get chunk key =
     (case map_of (metadata chunk) key of Some v \<Rightarrow> v | None \<Rightarrow> Str ''unknown'')"

text \<open>The loop of \<open>get_context_for_query\<close> with its \<open>break\<close>: the context parts, the sources
  and the running length.\<close>

fun accumulate ::
  "int \<Rightarrow> (DocumentChunk \<times> rat) list \<Rightarrow> string list \<times> citation list \<times> int
     \<Rightarrow> string list \<times> citation list \<times> int" where
  "accumulate max_context_length [] acc = acc"
| "accumulate max_context_length ((chunk, similarity) # rest) (context_parts, sources, current_len) =
     (let chunk_text = content chunk;
          chunk_length = int (length chunk_text)
      in if current_len + chunk_length > max_context_length
         then (context_parts, sources, current_len)
         else accumulate max_context_length rest
                (context_parts @ [chunk_text],
                 sources @ [\<lparr> cite_source = metadata_get chunk ''source'',
                              cite_page = metadata_get chunk ''page'',
                              cite_similarity = round3 similarity \<rparr>],
                 current_len + chunk_length))"

text \<open>The separator \<open>"\n\n---\n\n"\<close>.\<close>

definition separator :: string where
  "separator = [CHR 0x0A, CHR 0x0A, CHR ''-'', CHR ''-'', CHR ''-'', CHR 0x0A, CHR 0x0A]"

definition get_context_for_query ::
  "embedding_service \<Rightarrow> VectorStoreManager \<Rightarrow> string \<Rightarrow> int \<Rightarrow> int \<Rightarrow> world
     \<Rightarrow> (error + string \<times> citation list) \<times> world" where
  "get_context_for_query svc m query k max_context_length w =
     (case search svc m query k w of
        (Inl e, w') \<Rightarrow> (Inl e, w')
      | (Inr results, w') \<Rightarrow>
          if results = [] then (Inr ([], []), w')
          else (let acc = accumulate max_context_length results ([], [], 0);
                    context = join separator (fst acc)
                in (Inr (context, fst (snd acc)), w')))"

text \<open>The three paths of a saved store: \<open>Path(directory) / f"{name}.faiss"\<close> and its two
  siblings, as strings.\<close>

definition store_base :: "string \<Rightarrow> string \<Rightarrow> string" where
  "store_base directory name = directory @ ''/'' @ name"

definition index_path :: "string \<Rightarrow> string" where
  "index_path base = base @ ''.faiss''"

definition chunks_path :: "string \<Rightarrow> string" where
  "chunks_path base = base @ ''_chunks.pkl''"

definition metadata_path :: "string \<Rightarrow> string" where
  "metadata_path base = base @ ''_metadata.json''"

text \<open>\<open>save\<close>: the three files are written in this order.\<close>

definition save :: "string \<Rightarrow> string \<Rightarrow> VectorStoreManager \<Rightarrow> world \<Rightarrow> world" where
  "save directory name m w =
     (let base = store_base directory name;
          f1 = (files w)(index_path base \<mapsto> FaissFile (index m));
          f2 = f1(chunks_path base \<mapsto> PickleFile (chunks m));
          f3 = f2(metadata_path base \<mapsto>
                 JsonFile \<lparr> md_embedding_model = embedding_model m,
                            md_dimension = dimension m,
                            num_chunks = length (chunks m),
                            num_embeddings = length (embeddings m) \<rparr>)
      in w \<lparr> files := f3 \<rparr>)"

text \<open>The message of the \<open>FileNotFoundError\<close> that \<open>open\<close> raises.\<close>

definition no_such_file :: "string \<Rightarrow> string" where
  "no_such_file path = ''[Errno 2] No such file or directory: '' @ [CHR 0x27] @ path @ [CHR 0x27]"

text \<open>\<open>load\<close>: the outcome (the chunk count it prints, or the exception raised) and the
  manager afterwards. A file of another kind at a path makes the reader of that path
  fail. The attributes are assigned as the files are read, so a failure after the first
  file leaves the manager with what was assigned before.\<close>

definition load ::
  "string \<Rightarrow> string \<Rightarrow> VectorStoreManager \<Rightarrow> world \<Rightarrow> (error + nat) \<times> VectorStoreManager" where
  "load directory name m w =
     (let base = store_base directory name
      in case files w (index_path base) of
           None \<Rightarrow> (Inl (FileNotFoundError (''Vector store not found: '' @ index_path base)), m)
         | Some (FaissFile ix) \<Rightarrow>
             (let m1 = m \<lparr> index := ix \<rparr>
              in case files w (chunks_path base) of
                   None \<Rightarrow> (Inl (FileNotFoundError (no_such_file (chunks_path base))), m1)
                 | Some (PickleFile cs) \<Rightarrow>
                     (let m2 = m1 \<lparr> chunks := cs \<rparr>
                      in case files w (metadata_path base) of
                           None \<Rightarrow> (Inl (FileNotFoundError (no_such_file (metadata_path base))), m2)
                         | Some (JsonFile md) \<Rightarrow> (Inr (num_chunks md), m2)
                         | Some _ \<Rightarrow> (Inl (Exception ''not a metadata file''), m2))
                 | Some _ \<Rightarrow> (Inl (Exception ''not a pickled chunk list''), m1))
         | Some _ \<Rightarrow> (Inl (Exception ''not a FAISS index''), m))"


text \<open>\<open>get_stats()['total_chunks']\<close>.\<close>

definition stats_total_chunks :: "VectorStoreManager \<Rightarrow> nat" where
  "stats_total_chunks m = length (chunks m)"

section \<open>Document Q&A agent\<close>

text \<open>\<open>session_info\<close> (without the start time) and one entry of the conversation
  history.\<close>

record session =
  documents_loaded :: "string list"
  total_chunks :: int
  queries_processed :: int

record history_entry =
  h_question :: string
  h_answer :: string
  h_sources :: "citation list"
  h_timestamp :: string

record DocumentQAAgent =
  document_processor :: DocumentProcessor
  vector_store :: VectorStoreManager
  conversation_history :: "history_entry list"
  session_info :: session

text \<open>The dictionary \<open>ask\<close> returns: the keys \<open>answer\<close>, \<open>sources\<close> and \<open>confidence\<close>, and
  \<open>error\<close> or \<open>context_used\<close> where the code sets them.\<close>

record ask_result =
  res_answer :: string
  res_sources :: "citation list"
  res_confidence :: string
  res_error :: "string option"
  res_context_used :: "nat option"

text \<open>\<open>__init__\<close>: the processor keeps the default \<open>min_chunk_size\<close>, the manager the
  default dimension.\<close>

definition new_agent :: "int \<Rightarrow> int \<Rightarrow> string \<Rightarrow> DocumentQAAgent" where
  "new_agent csize coverlap model =
     \<lparr> document_processor = \<lparr> chunk_size = csize, chunk_overlap = coverlap, min_chunk_size = 100 \<rparr>,
       vector_store = new_manager model 1536,
       conversation_history = [],
       session_info = \<lparr> documents_loaded = [], total_chunks = 0, queries_processed = 0 \<rparr> \<rparr>"

definition system_prompt :: string where
  "system_prompt =
     ''You are a helpful AI assistant that answers questions based on provided document context. \<newline>''
     @ ''\<newline>''
     @ ''Your responsibilities:\<newline>''
     @ ''1. Answer questions using ONLY the information from the provided context\<newline>''
     @ ''2. If the answer is not in the context, clearly state that you don't have that information\<newline>''
     @ ''3. Cite the source document and page when providing answers\<newline>''
     @ ''4. Be concise but thorough in your explanations\<newline>''
     @ ''5. If the context is ambiguous, acknowledge uncertainty\<newline>''
     @ ''\<newline>''
     @ ''Always ground your answers in the provided context and avoid speculation.''"

definition build_qa_prompt :: "string \<Rightarrow> string \<Rightarrow> string" where
  "build_qa_prompt question context =
     ''Based on the following context from the documents, please answer the question.\<newline>''
     @ ''\<newline>''
     @ ''CONTEXT:\<newline>''
     @ context @ ''\<newline>''
     @ ''\<newline>''
     @ ''QUESTION: '' @ question @ ''\<newline>''
     @ ''\<newline>''
     @ ''Please provide a clear, accurate answer based on the context above. If you reference specific information, mention which part of the context it comes from.''"

text \<open>The two fixed responses of \<open>ask\<close>.\<close>

definition no_documents_response :: ask_result where
  "no_documents_response =
     \<lparr> res_answer = ''No documents have been loaded yet. Please load some documents first using the 'load' command.'',
       res_sources = [], res_confidence = ''low'', res_error = Some ''no_documents'',
       res_context_used = None \<rparr>"

definition no_context_response :: ask_result where
  "no_context_response =
     \<lparr> res_answer = ''I couldn't find relevant information in the loaded documents to answer this question.'',
       res_sources = [], res_confidence = ''none'', res_error = Some ''no_context'',
       res_context_used = None \<rparr>"

text \<open>The confidence bucket of the mean similarity of the sources.\<close>

definition confidence_of :: "citation list \<Rightarrow> string" where
  "confidence_of srcs =
     (let avg_similarity =
            (if srcs \<noteq> [] then sum_list (map cite_similarity srcs) / of_nat (length srcs) else 0)
      in if avg_similarity > 7 / 10 then ''high''
         else if avg_similarity > 5 / 10 then ''medium'' else ''low'')"

text \<open>\<open>ask\<close>: the dictionary returned (or the exception that escapes), the agent and the
  world afterwards. \<open>now\<close> is \<open>datetime.now().isoformat()\<close>.\<close>

definition ask ::
  "embedding_service \<Rightarrow> completion_service \<Rightarrow> string \<Rightarrow> string \<Rightarrow> int \<Rightarrow> string \<Rightarrow> bool
     \<Rightarrow> DocumentQAAgent \<times> world \<Rightarrow> (error + ask_result) \<times> DocumentQAAgent \<times> world" where
  "ask svc llm now question num_sources model include_sources aw =
     (let a = fst aw; w = snd aw
      in if documents_loaded (session_info a) = [] then (Inr no_documents_response, a, w)
         else (case get_context_for_query svc (vector_store a) question num_sources 4000 w of
                 (Inl e, w1) \<Rightarrow> (Inl e, a, w1)
               | (Inr (context, srcs), w1) \<Rightarrow>
                   if context = [] then (Inr no_context_response, a, w1)
                   else (let user_prompt = build_qa_prompt question context;
                             w2 = w1 \<lparr> chat_calls := Suc (chat_calls w1) \<rparr>
                         in case llm model (chat_calls w1) system_prompt user_prompt of
                              Inr answer \<Rightarrow>
                                (Inr \<lparr> res_answer = answer,
                                       res_sources = (if include_sources then srcs else []),
                                       res_confidence = confidence_of srcs,
                                       res_error = None,
                                       res_context_used = Some (length context) \<rparr>,
                                 a \<lparr> conversation_history :=
                                       conversation_history a
                                         @ [\<lparr> h_question = question, h_answer = answer,
                                              h_sources = srcs, h_timestamp = now \<rparr>],
                                     session_info :=
                                       (session_info a)
                                         \<lparr> queries_processed :=
                                             queries_processed (session_info a) + 1 \<rparr> \<rparr>,
                                 w2)
                            | Inl e \<Rightarrow>
                                (Inr \<lparr> res_answer = ''Error generating answer: '' @ e,
                                       res_sources = [], res_confidence = ''error'',
                                       res_error = Some e, res_context_used = None \<rparr>,
                                 a, w2))))"

text \<open>\<open>str(e)\<close> of an exception.\<close>

fun str_error :: "error \<Rightarrow> string" where
  "str_error (Exception msg) = msg"
| "str_error (ValueError msg) = msg"
| "str_error AssertionError = []"
| "str_error IndexError = ''list index out of range''"
| "str_error ZeroDivisionError = ''division by zero''"
| "str_error (FileNotFoundError msg) = msg"

text \<open>The two status glyphs of the messages (U+2713 and U+2717), as their UTF-8 bytes.\<close>

definition check_mark :: string where
  "check_mark = [CHR 0xE2, CHR 0x9C, CHR 0x93]"

definition cross_mark :: string where
  "cross_mark = [CHR 0xE2, CHR 0x9C, CHR 0x97]"

text \<open>\<open>save_vector_store\<close> and \<open>load_vector_store\<close>: the status message, the agent and the
  world afterwards.\<close>

definition save_vector_store ::
  "string \<Rightarrow> string \<Rightarrow> DocumentQAAgent \<times> world \<Rightarrow> string \<times> DocumentQAAgent \<times> world" where
  "save_vector_store directory name aw =
     (check_mark @ '' Vector store ''  @ [CHR 0x27] @ name @ [CHR 0x27]
        @ '' saved successfully to '' @ directory @ ''/'',
      fst aw, save directory name (vector_store (fst aw)) (snd aw))"

definition load_vector_store ::
  "string \<Rightarrow> string \<Rightarrow> DocumentQAAgent \<times> world \<Rightarrow> string \<times> DocumentQAAgent \<times> world" where
  "load_vector_store directory name aw =
     (let a = fst aw; w = snd aw
      in case load directory name (vector_store a) w of
           (Inr n, m) \<Rightarrow>
             (check_mark @ '' Vector store '' @ [CHR 0x27] @ name @ [CHR 0x27]
                @ '' loaded successfully ('' @ str_nat (stats_total_chunks m) @ '' chunks)'',
              a \<lparr> vector_store := m,
                  session_info :=
                    (session_info a) \<lparr> total_chunks := int (stats_total_chunks m) \<rparr> \<rparr>,
              w)
         | (Inl e, m) \<Rightarrow>
             (cross_mark @ '' Error loading vector store: '' @ str_error e,
              a \<lparr> vector_store := m \<rparr>, w))"


section \<open>Closed forms used in the statements\<close>

text \<open>The buffers the sentence loop closes on one page, from the buffer \<open>cur\<close> with running
  length \<open>len\<close>: a buffer is closed when the next sentence overflows it, and the last one at
  the end of the page. Neither \<open>min_chunk_size\<close> nor \<open>chunk_overlap\<close> occurs.\<close>

fun buffers :: "int \<Rightarrow> string list \<Rightarrow> int \<Rightarrow> string list \<Rightarrow> string list list" where
  "buffers csize cur len [] = (if cur = [] then [] else [cur])"
| "buffers csize cur len (s # ss) =
     (if len + int (length s) > csize \<and> cur \<noteq> []
      then cur # buffers csize [s] (int (length s)) ss
      else buffers csize (cur @ [s]) (len + int (length s) + 1) ss)"

text \<open>The buffers of one page.\<close>

definition page_buffers :: "DocumentProcessor \<Rightarrow> nat \<times> string \<Rightarrow> string list list" where
  "page_buffers dp page =
     buffers (chunk_size dp) [] 0 (split_sentences False [] (clean_text (snd page)))"

text \<open>The test \<open>len(chunk_text) >= self.min_chunk_size\<close>.\<close>

definition long_enough :: "DocumentProcessor \<Rightarrow> string \<Rightarrow> bool" where
  "long_enough dp t = (min_chunk_size dp \<le> int (length t))"

text \<open>The texts of the buffers of one page that are long enough.\<close>

definition page_texts :: "DocumentProcessor \<Rightarrow> nat \<times> string \<Rightarrow> string list" where
  "page_texts dp page = filter (long_enough dp) (map (join '' '') (page_buffers dp page))"

text \<open>Chunks of one page for the given texts, numbered from \<open>k\<close>.\<close>

fun number_chunks :: "string \<Rightarrow> nat \<Rightarrow> nat \<Rightarrow> string list \<Rightarrow> DocumentChunk list" where
  "number_chunks source page_num k [] = []"
| "number_chunks source page_num k (t # ts) =
     make_chunk source page_num k t # number_chunks source page_num (Suc k) ts"

text \<open>\<open>chunk.metadata['chunk_index']\<close> (\<open>-1\<close> stands for a missing or non-integer entry).\<close>

definition chunk_index_of :: "DocumentChunk \<Rightarrow> int" where
  "chunk_index_of c = (case map_of (metadata c) ''chunk_index'' of Some (Num i) \<Rightarrow> i | _ \<Rightarrow> - 1)"

text \<open>The step after the sentence loop: \<open>if current_chunk: ...\<close>.\<close>

definition finish :: "DocumentProcessor \<Rightarrow> string \<Rightarrow> nat \<Rightarrow> chunker \<Rightarrow> chunker" where
  "finish dp source page_num st = (if current_chunk st \<noteq> [] then emit dp source page_num st else st)"

text \<open>The chunks of a list of pages, numbered from \<open>k\<close> across the pages.\<close>

fun pages_chunks :: "DocumentProcessor \<Rightarrow> string \<Rightarrow> nat \<Rightarrow> (nat \<times> string) list \<Rightarrow> DocumentChunk list" where
  "pages_chunks dp source k [] = []"
| "pages_chunks dp source k (page # pages) =
     number_chunks source (fst page) k (page_texts dp page)
       @ pages_chunks dp source (k + length (page_texts dp page)) pages"

text \<open>A small configuration for concrete runs.\<close>

definition dp_small :: DocumentProcessor where
  "dp_small = \<lparr> chunk_size = 10, chunk_overlap = 200, min_chunk_size = 1 \<rparr>"

section \<open>Runs and concrete inputs\<close>

text \<open>A series of \<open>ask\<close> calls, each with its question, \<open>num_sources\<close>, model and
  \<open>include_sources\<close>: the results in order, and the agent and the world at the end.\<close>

fun ask_all ::
  "embedding_service \<Rightarrow> completion_service \<Rightarrow> string \<Rightarrow> (string \<times> int \<times> string \<times> bool) list
     \<Rightarrow> DocumentQAAgent \<times> world \<Rightarrow> (error + ask_result) list \<times> DocumentQAAgent \<times> world" where
  "ask_all svc llm now [] aw = ([], aw)"
| "ask_all svc llm now ((question, num_sources, model, include_sources) # rest) aw =
     (let r = ask svc llm now question num_sources model include_sources aw;
          rs = ask_all svc llm now rest (snd r)
      in (fst r # fst rs, snd rs))"

text \<open>An embedding service that answers every request, with one one-dimensional vector
  per text (its length); a completion service that fails every request.\<close>

definition svc_len :: embedding_service where
  "svc_len model n batch = Inr (map (\<lambda>t. [of_nat (length t)]) batch)"

definition llm_down :: completion_service where
  "llm_down model n sys_prompt user_prompt = Inl ''Connection error.''"

text \<open>An embedding service whose vectors depend on the model: the length of the text plus
  the length of the model name.\<close>

definition svc_by_model :: embedding_service where
  "svc_by_model model n batch =
     Inr (map (\<lambda>t. [of_nat (length t) + of_nat (length model)]) batch)"

text \<open>A world in which no request was made and no file exists.\<close>

definition world0 :: world where
  "world0 = \<lparr> embed_calls = 0, chat_calls = 0, files = Map.empty \<rparr>"

text \<open>Two chunks, a manager that holds the first, and an agent with one document loaded.\<close>

definition chunk_ab :: DocumentChunk where
  "chunk_ab = make_chunk ''doc'' 1 0 ''ab''"

definition chunk_cd :: DocumentChunk where
  "chunk_cd = make_chunk ''doc'' 1 1 ''cd''"

definition manager1 :: VectorStoreManager where
  "manager1 = \<lparr> embedding_model = ''m'', dimension = 1,
                index = \<lparr> dim = 1, vectors = [[2]] \<rparr>, chunks = [chunk_ab], embeddings = [[2]] \<rparr>"

definition agent1 :: DocumentQAAgent where
  "agent1 = (new_agent 1000 200 ''m'')
              \<lparr> vector_store := manager1,
                session_info := \<lparr> documents_loaded = [''doc''], total_chunks = 1,
                                  queries_processed = 0 \<rparr> \<rparr>"

text \<open>The world after \<open>manager1\<close> was saved under the default directory and name.\<close>

definition world_saved :: world where
  "world_saved = save ''vector_stores'' ''default'' manager1 world0"

text \<open>A manager that holds both chunks.\<close>

definition manager2 :: VectorStoreManager where
  "manager2 = \<lparr> embedding_model = ''m'', dimension = 1,
                index = \<lparr> dim = 1, vectors = [[2], [3]] \<rparr>,
                chunks = [chunk_ab, chunk_cd], embeddings = [[2], [3]] \<rparr>"

text \<open>The source entry that \<open>get_context_for_query\<close> builds for one search result.\<close>

definition cite_of :: "DocumentChunk \<times> rat \<Rightarrow> citation" where
  "cite_of r = \<lparr> cite_source = metadata_get (fst r) ''source'',
                 cite_page = metadata_get (fst r) ''page'',
                 cite_similarity = round3 (snd r) \<rparr>"

text \<open>The results that the loop of \<open>get_context_for_query\<close> takes, from the running length
  \<open>len\<close>: the longest prefix in which every chunk still fits when it is added.\<close>

fun fitting :: "int \<Rightarrow> int \<Rightarrow> (DocumentChunk \<times> rat) list \<Rightarrow> (DocumentChunk \<times> rat) list" where
  "fitting mx len [] = []"
| "fitting mx len (r # rest) =
     (if len + int (length (content (fst r))) > mx then []
      else r # fitting mx (len + int (length (content (fst r)))) rest)"


text \<open>The vectors for the batch of request number \<open>n\<close>: those of the answer, or zero vectors
  of the configured dimension when the request failed.\<close>

definition batch_vectors :: "embedding_service \<Rightarrow> VectorStoreManager \<Rightarrow> nat \<Rightarrow> string list \<Rightarrow> vec list" where
  "batch_vectors svc m n batch =
     (case svc (embedding_model m) n batch of
        Inr vs \<Rightarrow> vs
      | Inl e \<Rightarrow> replicate (length batch) (replicate (dimension m) 0))"

text \<open>The vectors for a list of batches sent as the requests \<open>n\<close>, \<open>n + 1\<close>, ..., and the
  texts of the batches paired with them.\<close>

fun batch_results :: "embedding_service \<Rightarrow> VectorStoreManager \<Rightarrow> nat \<Rightarrow> string list list \<Rightarrow> vec list" where
  "batch_results svc m n [] = []"
| "batch_results svc m n (b # bs) = batch_vectors svc m n b @ batch_results svc m (Suc n) bs"



text \<open>The operations on a manager, and a run of them: each operation acts on the manager
  and the world; what it returns or raises is dropped.\<close>

datatype store_op =
    AddDocuments "DocumentChunk list"
  | Search string int
  | Save string string
  | Load string string

fun store_step :: "embedding_service \<Rightarrow> VectorStoreManager \<times> world \<Rightarrow> store_op \<Rightarrow> VectorStoreManager \<times> world" where
  "store_step svc (m, w) (AddDocuments cs) = snd (add_documents svc cs (m, w))"
| "store_step svc (m, w) (Search query k) = (m, snd (search svc m query k w))"
| "store_step svc (m, w) (Save directory name) = (m, save directory name m w)"
| "store_step svc (m, w) (Load directory name) = (snd (load directory name m w), w)"

definition run_store :: "embedding_service \<Rightarrow> VectorStoreManager \<times> world \<Rightarrow> store_op list \<Rightarrow> VectorStoreManager \<times> world" where
  "run_store svc mw ops = foldl (store_step svc) mw ops"

fun is_load :: "store_op \<Rightarrow> bool" where
  "is_load (Load directory name) = True"
| "is_load _ = False"

text \<open>The part of the contract of the embeddings endpoint that the alignment of texts and
  vectors rests on: an answered request has one vector per input text.\<close>

definition answers_every_text :: "embedding_service \<Rightarrow> bool" where
  "answers_every_text svc =
     (\<forall>model n batch vs. svc model n batch = Inr vs \<longrightarrow> length vs = length batch)"

text \<open>A vector was produced for a text, among the first \<open>k\<close> requests and for an index of
  dimension \<open>d\<close>: one of these requests had the text at a position of its input, and either
  it was answered and the vector stands at that position of the answer, or it failed and
  the vector is the zero vector of \<open>d\<close> components.\<close>

definition produced_for :: "embedding_service \<Rightarrow> nat \<Rightarrow> nat \<Rightarrow> string \<Rightarrow> vec \<Rightarrow> bool" where
  "produced_for svc k d t v =
     (\<exists>model n batch j. n < k \<and> j < length batch \<and> batch ! j = t
        \<and> (case svc model n batch of
              Inr vs \<Rightarrow> j < length vs \<and> vs ! j = v
            | Inl e \<Rightarrow> v = replicate d 0))"

text \<open>A chunk list and an index are co-indexed after \<open>k\<close> requests: they have the same
  length, and the vector at each position was produced for the content of the chunk at
  that position.\<close>

definition coindexed :: "embedding_service \<Rightarrow> nat \<Rightarrow> DocumentChunk list \<Rightarrow> faiss_index \<Rightarrow> bool" where
  "coindexed svc k cs ix = list_all2 (produced_for svc k (dim ix)) (map content cs) (vectors ix)"

text \<open>Every saved index has its chunk file and its metadata file beside it, and the saved
  chunks are co-indexed with the saved index.\<close>

definition files_ok :: "embedding_service \<Rightarrow> nat \<Rightarrow> (string \<rightharpoonup> stored_file) \<Rightarrow> bool" where
  "files_ok svc k fs =
     (\<forall>base ix. fs (index_path base) = Some (FaissFile ix) \<longrightarrow>
        (\<exists>cs md. fs (chunks_path base) = Some (PickleFile cs)
           \<and> fs (metadata_path base) = Some (JsonFile md)
           \<and> coindexed svc k cs ix))"

text \<open>The invariant of a manager in a world, for the requests made so far.\<close>

definition store_inv :: "embedding_service \<Rightarrow> VectorStoreManager \<times> world \<Rightarrow> bool" where
  "store_inv svc mw =
     (coindexed svc (embed_calls (snd mw)) (chunks (fst mw)) (index (fst mw))
      \<and> files_ok svc (embed_calls (snd mw)) (files (snd mw)))"

text \<open>A run that adds a chunk, saves, adds another chunk and loads what was saved.\<close>

definition ops_reload :: "store_op list" where
  "ops_reload = [AddDocuments [chunk_ab], Save ''stores'' ''s'', AddDocuments [chunk_cd], Load ''stores'' ''s'']"

text \<open>A configuration that drops chunks of fewer than six characters, and a text of two
  pages with text before the first page marker.\<close>

definition dp_six :: DocumentProcessor where
  "dp_six = \<lparr> chunk_size = 10, chunk_overlap = 200, min_chunk_size = 6 \<rparr>"

definition two_pages :: string where
  "two_pages = ''x[PAGE_1]aaaa. bbbb. cccc.[PAGE_2] d.  eeeeeee! f?''"

section \<open>Properties of the document processor\<close>

lemma length_number_chunks [simp]: "length (number_chunks source p k ts) = length ts"
  by (induction ts arbitrary: k) simp_all

lemma number_chunks_append:
  "number_chunks source p k (ts @ us) =
     number_chunks source p k ts @ number_chunks source p (k + length ts) us"
  by (induction ts arbitrary: k) simp_all

lemma emit_fields:
  "current_chunk (emit dp source p st) = current_chunk st"
  "current_length (emit dp source p st) = current_length st"
  "emitted (emit dp source p st) =
     emitted st @ number_chunks source p (chunk_index st)
       (filter (long_enough dp) [join '' '' (current_chunk st)])"
  "chunk_index (emit dp source p st) =
     chunk_index st + length (filter (long_enough dp) [join '' '' (current_chunk st)])"
  by (simp_all add: emit_def Let_def long_enough_def)

lemma sentence_loop_closed:
  "emitted (finish dp source p (foldl (sentence_step dp source p) st ss)) =
     emitted st @ number_chunks source p (chunk_index st)
       (filter (long_enough dp) (map (join '' '')
          (buffers (chunk_size dp) (current_chunk st) (current_length st) ss)))
   \<and> chunk_index (finish dp source p (foldl (sentence_step dp source p) st ss)) =
     chunk_index st + length (filter (long_enough dp) (map (join '' '')
          (buffers (chunk_size dp) (current_chunk st) (current_length st) ss)))"
proof (induction ss arbitrary: st)
  case Nil
  show ?case by (simp add: finish_def emit_fields)
next
  case (Cons s ss)
  show ?case
    using Cons.IH [of "sentence_step dp source p st s"]
    by (cases "chunk_size dp < current_length st + int (length s)"; cases "current_chunk st = []")
       (simp_all add: sentence_step_def Let_def emit_fields)
qed

lemma page_step_closed:
  "page_step dp source (cs, k) page =
     (cs @ number_chunks source (fst page) k (page_texts dp page), k + length (page_texts dp page))"
  using sentence_loop_closed [of dp source "fst page"
      "\<lparr> current_chunk = [], current_length = 0, emitted = cs, chunk_index = k \<rparr>"
      "split_sentences False [] (clean_text (snd page))"]
  by (simp add: page_step_def Let_def finish_def page_texts_def page_buffers_def)

lemma page_loop_closed:
  "foldl (page_step dp source) (cs, k) pages =
     (cs @ pages_chunks dp source k pages, k + length (pages_chunks dp source k pages))"
  by (induction pages arbitrary: cs k) (simp_all add: page_step_closed)

lemma chunk_text_closed:
  "chunk_text dp text source = pages_chunks dp source 0 (page_contents text)"
  by (simp add: chunk_text_def page_loop_closed)

lemma content_make_chunk [simp]: "content (make_chunk source p i t) = t"
  by (simp add: make_chunk_def)

lemma chunk_index_of_make_chunk [simp]: "chunk_index_of (make_chunk source p i t) = int i"
  by (simp add: make_chunk_def chunk_index_of_def)

lemma content_number_chunks [simp]: "map content (number_chunks source p k ts) = ts"
  by (induction ts arbitrary: k) simp_all

lemma index_number_chunks:
  "map chunk_index_of (number_chunks source p k ts) = map int [k ..< k + length ts]"
proof (induction ts arbitrary: k)
  case Nil
  show ?case by simp
next
  case (Cons t ts)
  have "[k ..< Suc (k + length ts)] = k # [Suc k ..< Suc (k + length ts)]"
    by (rule upt_conv_Cons) simp
  then have e: "map int [k ..< k + length (t # ts)] = int k # map int [Suc k ..< Suc k + length ts]"
    by (simp del: upt_Suc)
  show ?case unfolding e by (simp add: Cons.IH)
qed

lemma content_pages_chunks:
  "map content (pages_chunks dp source k pages) = concat (map (page_texts dp) pages)"
  by (induction pages arbitrary: k) simp_all

lemma length_pages_chunks:
  "length (pages_chunks dp source k pages) = length (concat (map (page_texts dp) pages))"
proof -
  have "length (map content (pages_chunks dp source k pages))
          = length (concat (map (page_texts dp) pages))"
    by (simp only: content_pages_chunks)
  then show ?thesis by (simp only: length_map)
qed

lemma index_pages_chunks:
  "map chunk_index_of (pages_chunks dp source k pages) =
     map int [k ..< k + length (pages_chunks dp source k pages)]"
proof (induction pages arbitrary: k)
  case Nil
  show ?case by simp
next
  case (Cons page pages)
  let ?n = "length (page_texts dp page)"
  let ?m = "length (pages_chunks dp source (k + ?n) pages)"
  have l: "length (pages_chunks dp source k (page # pages)) = ?n + ?m"
    by simp
  have u: "[k ..< k + (?n + ?m)] = [k ..< k + ?n] @ [k + ?n ..< k + ?n + ?m]"
    using upt_add_eq_append [of k "k + ?n" ?m] by (simp only: le_add1 add.assoc)
  have "map chunk_index_of (pages_chunks dp source k (page # pages))
          = map int [k ..< k + ?n] @ map int [k + ?n ..< k + ?n + ?m]"
    by (simp only: pages_chunks.simps map_append index_number_chunks Cons.IH)
  also have "\<dots> = map int [k ..< k + (?n + ?m)]"
    by (simp only: u map_append)
  finally show ?case by (simp only: l)
qed

lemma page_texts_concat:
  "concat (map (page_texts dp) pages) =
     filter (long_enough dp) (map (join '' '') (concat (map (page_buffers dp) pages)))"
  by (induction pages) (simp_all add: page_texts_def)

lemma strict_sorted_upt_int: "sorted_wrt (<) (map int [i ..< j])"
  by (simp add: sorted_wrt_map sorted_wrt_iff_nth_less)

text \<open>
  C7. For every processor configuration, text and source: every chunk that \<open>chunk_text\<close>
  emits has a content of at least \<open>min_chunk_size\<close> characters; the \<open>chunk_index\<close> values of
  the emitted chunks are \<open>0, 1, 2, ...\<close> in order over the whole document (strictly
  increasing, not reset at a page boundary); and the contents of the emitted chunks are
  exactly the buffers of the pages that are long enough, in order and unchanged: a buffer
  that is too short is dropped, it is neither padded nor merged into a later chunk.
\<close>

theorem chunk_text_min_size_and_indices:
  "list_all (\<lambda>c. min_chunk_size dp \<le> int (length (content c))) (chunk_text dp text source)
   \<and> map chunk_index_of (chunk_text dp text source)
       = map int [0 ..< length (chunk_text dp text source)]
   \<and> sorted_wrt (<) (map chunk_index_of (chunk_text dp text source))
   \<and> map content (chunk_text dp text source)
       = filter (\<lambda>t. min_chunk_size dp \<le> int (length t))
           (map (join '' '') (concat (map (page_buffers dp) (page_contents text))))"
proof -
  let ?cs = "chunk_text dp text source"
  have c: "map content ?cs
       = filter (long_enough dp)
           (map (join '' '') (concat (map (page_buffers dp) (page_contents text))))"
    by (simp add: chunk_text_closed content_pages_chunks page_texts_concat)
  have "list_all (long_enough dp) (map content ?cs)"
    unfolding c by (simp add: list_all_iff)
  then have a: "list_all (\<lambda>c. min_chunk_size dp \<le> int (length (content c))) ?cs"
    by (simp add: list_all_iff long_enough_def)
  have i: "map chunk_index_of ?cs = map int [0 ..< length ?cs]"
    using index_pages_chunks [of dp source 0 "page_contents text"]
    by (simp add: chunk_text_closed)
  have s: "sorted_wrt (<) (map chunk_index_of ?cs)"
    unfolding i by (rule strict_sorted_upt_int)
  from a i s c show ?thesis
    by (simp add: long_enough_def [abs_def])
qed

lemma two_pages_contents:
  "map content (chunk_text dp_six two_pages ''doc'') = [''bbbb. cccc.'', ''eeeeeee! f?'']"
  by code_simp

theorem chunk_text_min_size_and_indices_witness:
  "map content (chunk_text dp_six two_pages ''doc'') = [''bbbb. cccc.'', ''eeeeeee! f?'']
   \<and> map chunk_index_of (chunk_text dp_six two_pages ''doc'') = [0, 1]
   \<and> list_all (\<lambda>c. 6 \<le> int (length (content c))) (chunk_text dp_six two_pages ''doc'')"
proof -
  have "length (map content (chunk_text dp_six two_pages ''doc'')) = 2"
    by (simp only: two_pages_contents) simp
  then have l: "length (chunk_text dp_six two_pages ''doc'') = 2"
    by simp
  have u: "[0 ..< 2] = [0, Suc 0]"
    by (simp add: upt_conv_Cons)
  from chunk_text_min_size_and_indices [of dp_six two_pages "''doc''"] two_pages_contents l u
  show ?thesis by (simp add: dp_six_def)
qed

lemma emit_ignores_overlap:
  "emit (dp \<lparr> chunk_overlap := v \<rparr>) source p st = emit dp source p st"
  by (simp add: emit_def)

lemma sentence_step_ignores_overlap:
  "sentence_step (dp \<lparr> chunk_overlap := v \<rparr>) source p st s = sentence_step dp source p st s"
  by (simp add: sentence_step_def emit_ignores_overlap Let_def)

lemma page_step_ignores_overlap:
  "page_step (dp \<lparr> chunk_overlap := v \<rparr>) source acc page = page_step dp source acc page"
proof -
  have "sentence_step (dp \<lparr> chunk_overlap := v \<rparr>) source p = sentence_step dp source p" for p
    by (intro ext) (rule sentence_step_ignores_overlap)
  then show ?thesis
    by (simp add: page_step_def emit_ignores_overlap Let_def)
qed

lemma chunk_text_ignores_overlap:
  "chunk_text (dp \<lparr> chunk_overlap := v \<rparr>) text source = chunk_text dp text source"
proof -
  have "page_step (dp \<lparr> chunk_overlap := v \<rparr>) source = page_step dp source"
    by (intro ext) (rule page_step_ignores_overlap)
  then show ?thesis by (simp add: chunk_text_def)
qed

lemma overflow_seeds_next_buffer:
  assumes "current_length st + int (length s) > chunk_size dp" and "current_chunk st \<noteq> []"
  shows "sentence_step dp source p st s =
           (emit dp source p st) \<lparr> current_chunk := [s], current_length := int (length s) \<rparr>"
  using assms by (simp add: sentence_step_def Let_def)

lemma buffers_partition: "concat (buffers csize cur len ss) = cur @ ss"
  by (induction ss arbitrary: cur len) simp_all

text \<open>
  C8. In \<open>chunk_text\<close>, when the running length plus the length of the next sentence
  exceeds \<open>chunk_size\<close> and the buffer is not empty, the buffer is emitted (if long enough)
  and the next buffer is exactly that sentence (\<open>overflow_seeds_next_buffer\<close>), whatever
  \<open>chunk_overlap\<close> is (\<open>chunk_text_ignores_overlap\<close>). The running length of a buffer that
  was seeded by an overflow is one less than it is for a buffer that started a page: the
  seed is counted without its separator. So with \<open>chunk_size = 10\<close> the text
  \<open>aaaa. bbbb. cccc.\<close> yields the chunk \<open>bbbb. cccc.\<close> of 11 characters: adding \<open>cccc.\<close> to
  the non-empty buffer \<open>bbbb.\<close> made it exceed \<open>chunk_size\<close>, and the buffer was not
  emitted first, while at the start of the page the same two lengths (\<open>aaaa.\<close> and \<open>bbbb.\<close>)
  do split.
\<close>

theorem chunk_text_seeded_buffer_exceeds_chunk_size:
  "map content (chunk_text dp_small ''aaaa. bbbb. cccc.'' ''doc'') = [''aaaa.'', ''bbbb. cccc.'']
   \<and> int (length ''bbbb. cccc.'') > chunk_size dp_small
   \<and> map content (chunk_text dp_small ''aaaa. bbbb.'' ''doc'') = [''aaaa.'', ''bbbb.'']"
  by code_simp

lemma seeded_step_appends_past_chunk_size:
  "sentence_step dp_small ''doc'' 1
     \<lparr> current_chunk = [''bbbb.''], current_length = 5, emitted = es, chunk_index = k \<rparr> ''cccc.''
   = \<lparr> current_chunk = [''bbbb.'', ''cccc.''], current_length = 11, emitted = es, chunk_index = k \<rparr>"
  by (simp add: sentence_step_def dp_small_def)

section \<open>Properties of the agent\<close>

text \<open>
  C5. For every question (and every \<open>num_sources\<close>, model and \<open>include_sources\<close>), \<open>ask\<close> on
  an agent with no loaded document returns the fixed "no documents loaded" response, with
  confidence \<open>low\<close> and error flag \<open>no_documents\<close>, and leaves the agent and the world as they
  were: no retrieval, and no request to the embedding or the completion service (both
  request counters are part of the world).
\<close>

theorem ask_without_documents:
  assumes "documents_loaded (session_info a) = []"
  shows "ask svc llm now question num_sources model include_sources (a, w)
           = (Inr no_documents_response, a, w)
         \<and> res_confidence no_documents_response = ''low''
         \<and> res_error no_documents_response = Some ''no_documents''
         \<and> res_sources no_documents_response = []"
  using assms by (simp add: ask_def no_documents_response_def)

theorem ask_without_documents_witness:
  "documents_loaded (session_info (new_agent 1000 200 ''m'')) = []
   \<and> ask svc_len llm_down ''t'' ''What?'' 5 ''gpt-4o-mini'' True (new_agent 1000 200 ''m'', world0)
       = (Inr no_documents_response, new_agent 1000 200 ''m'', world0)"
proof -
  have h: "documents_loaded (session_info (new_agent 1000 200 ''m'')) = []"
    by (simp add: new_agent_def)
  show ?thesis
    using h ask_without_documents [OF h, of svc_len llm_down "''t''" "''What?''" 5 "''gpt-4o-mini''" True world0]
    by simp
qed

text \<open>
  C9. For every \<open>ask\<close> call with documents loaded and a non-empty retrieved context: if the
  completion request fails with a message, \<open>ask\<close> returns a result (it does not raise) whose
  answer is the error message \<open>Error generating answer: \<close> followed by that message, whose
  confidence is \<open>error\<close> and whose error field is the message; the agent is unchanged, so
  the conversation history and \<open>queries_processed\<close> are as before.
\<close>

theorem ask_completion_error:
  assumes "documents_loaded (session_info a) \<noteq> []"
    and "get_context_for_query svc (vector_store a) question num_sources 4000 w
           = (Inr (context, srcs), w1)"
    and "context \<noteq> []"
    and "llm model (chat_calls w1) system_prompt (build_qa_prompt question context) = Inl msg"
  shows "\<exists>r a' w'. ask svc llm now question num_sources model include_sources (a, w) = (Inr r, a', w')
           \<and> res_answer r = ''Error generating answer: '' @ msg
           \<and> res_confidence r = ''error''
           \<and> res_error r = Some msg
           \<and> res_sources r = []
           \<and> a' = a
           \<and> conversation_history a' = conversation_history a
           \<and> queries_processed (session_info a') = queries_processed (session_info a)"
  using assms by (simp add: ask_def Let_def)

lemma context_of_agent1: "fst (get_context_for_query svc_len (vector_store agent1) ''What?'' 1 4000 world0)
           = Inr (''ab'', [\<lparr> cite_source = Str ''doc'', cite_page = Num 1, cite_similarity = 1 / 10 \<rparr>])"
  by code_simp

theorem ask_completion_error_witness:
  "\<exists>r w'. ask svc_len llm_down ''t'' ''What?'' 1 ''gpt-4o-mini'' True (agent1, world0) = (Inr r, agent1, w')
     \<and> res_answer r = ''Error generating answer: Connection error.''
     \<and> res_confidence r = ''error'' \<and> res_error r = Some ''Connection error.''"
proof -
  let ?w1 = "snd (get_context_for_query svc_len (vector_store agent1) ''What?'' 1 4000 world0)"
  let ?srcs = "[\<lparr> cite_source = Str ''doc'', cite_page = Num 1, cite_similarity = 1 / 10 \<rparr>]"
  have h1: "documents_loaded (session_info agent1) \<noteq> []"
    by (simp add: agent1_def)
  have h2: "get_context_for_query svc_len (vector_store agent1) ''What?'' 1 4000 world0
              = (Inr (''ab'', ?srcs), ?w1)"
    using context_of_agent1 by (simp add: prod_eq_iff)
  have h3: "''ab'' \<noteq> []" by simp
  have h4: "llm_down ''gpt-4o-mini'' (chat_calls ?w1) system_prompt (build_qa_prompt ''What?'' ''ab'')
              = Inl ''Connection error.''"
    by (simp add: llm_down_def)
  from ask_completion_error [where llm = llm_down and svc = svc_len and now = "''t''"
      and include_sources = True, OF h1 h2 h3 h4]
  show ?thesis by auto
qed

lemma ask_all_without_documents:
  "documents_loaded (session_info a) = [] \<Longrightarrow>
     ask_all svc llm now qs (a, w) = (replicate (length qs) (Inr no_documents_response), a, w)"
  by (induction qs) (auto simp add: ask_def Let_def)

text \<open>
  C10. When \<open>load_vector_store\<close> succeeds in loading a saved store with at least one chunk
  into an agent whose list of loaded documents is empty (no \<open>load_document\<close> call was made),
  it sets \<open>total_chunks\<close> and leaves \<open>documents_loaded\<close> empty, and every \<open>ask\<close> of every
  later series of calls returns the fixed "no documents loaded" response, without
  retrieval: the agent and the world stay as they are after the load.
\<close>

theorem ask_after_load_vector_store:
  assumes "documents_loaded (session_info a) = []"
    and "load directory name (vector_store a) w = (Inr n, m)"
    and "chunks m \<noteq> []"
  shows "\<exists>msg a'. load_vector_store directory name (a, w) = (msg, a', w)
           \<and> vector_store a' = m
           \<and> total_chunks (session_info a') = int (length (chunks m))
           \<and> documents_loaded (session_info a') = []
           \<and> ask_all svc llm now qs (a', w)
               = (replicate (length qs) (Inr no_documents_response), a', w)"
  using assms by (simp add: load_vector_store_def ask_all_without_documents stats_total_chunks_def)

lemma load_saved:
  "load ''vector_stores'' ''default'' (vector_store (new_agent 1000 200 ''m'')) world_saved
     = (Inr 1, (new_manager ''m'' 1536) \<lparr> index := index manager1, chunks := chunks manager1 \<rparr>)"
  by (simp add: load_def save_def world_saved_def world0_def store_base_def index_path_def
      chunks_path_def metadata_path_def manager1_def new_agent_def)

theorem ask_after_load_vector_store_witness:
  "\<exists>msg a'. load_vector_store ''vector_stores'' ''default'' (new_agent 1000 200 ''m'', world_saved)
               = (msg, a', world_saved)
     \<and> total_chunks (session_info a') = 1
     \<and> ask_all svc_len llm_down ''t'' [(''What?'', 5, ''gpt-4o-mini'', True), (''Why?'', 3, ''gpt-4o-mini'', False)]
           (a', world_saved)
         = ([Inr no_documents_response, Inr no_documents_response], a', world_saved)"
proof -
  have h1: "documents_loaded (session_info (new_agent 1000 200 ''m'')) = []"
    by (simp add: new_agent_def)
  have h3: "chunks ((new_manager ''m'' 1536) \<lparr> index := index manager1, chunks := chunks manager1 \<rparr>) \<noteq> []"
    by (simp add: manager1_def)
  from ask_after_load_vector_store [where svc = svc_len and llm = llm_down and now = "''t''"
      and qs = "[(''What?'', 5, ''gpt-4o-mini'', True), (''Why?'', 3, ''gpt-4o-mini'', False)]",
      OF h1 load_saved h3]
  show ?thesis by (auto simp add: manager1_def)
qed

section \<open>Properties of the vector store manager\<close>

lemma neq_by_last: "last x \<noteq> last y \<Longrightarrow> x \<noteq> y"
  by auto

lemma last_store_paths:
  "last (index_path b) = CHR ''s''" "last (chunks_path b) = CHR ''l''"
  "last (metadata_path b) = CHR ''n''"
  by (simp_all add: index_path_def chunks_path_def metadata_path_def)

lemma store_paths_distinct [simp]:
  "index_path b \<noteq> chunks_path b'" "index_path b \<noteq> metadata_path b'"
  "chunks_path b \<noteq> index_path b'" "chunks_path b \<noteq> metadata_path b'"
  "metadata_path b \<noteq> index_path b'" "metadata_path b \<noteq> chunks_path b'"
  by (rule neq_by_last, simp add: last_store_paths)+

lemma store_paths_inject [simp]:
  "index_path b = index_path b' \<longleftrightarrow> b = b'"
  "chunks_path b = chunks_path b' \<longleftrightarrow> b = b'"
  "metadata_path b = metadata_path b' \<longleftrightarrow> b = b'"
  by (simp_all add: index_path_def chunks_path_def metadata_path_def)

lemma files_after_save:
  "files (save directory name m w) (index_path (store_base directory name)) = Some (FaissFile (index m))"
  "files (save directory name m w) (chunks_path (store_base directory name)) = Some (PickleFile (chunks m))"
  "files (save directory name m w) (metadata_path (store_base directory name)) =
     Some (JsonFile \<lparr> md_embedding_model = embedding_model m, md_dimension = dimension m,
                       num_chunks = length (chunks m), num_embeddings = length (embeddings m) \<rparr>)"
  by (simp_all add: save_def Let_def)

lemma load_after_save:
  "load directory name m2 (save directory name m w)
     = (Inr (length (chunks m)), m2 \<lparr> index := index m, chunks := chunks m \<rparr>)"
  by (simp add: load_def files_after_save Let_def)

lemma search_depends_on:
  assumes "embedding_model m' = embedding_model m" "index m' = index m" "chunks m' = chunks m"
  shows "search svc m' query k w = search svc m query k w"
  by (simp only: search_def create_embedding_def assms)

text \<open>
  C4, as amended. For every manager state \<open>m\<close>, directory, name, query and \<open>k\<close>: after \<open>m\<close> is
  saved, loading that name into a manager with the same embedding model (\<open>m\<close> itself, or a
  manager constructed with that model) succeeds, reports the number of chunks of \<open>m\<close>, and
  gives a manager whose \<open>search\<close> of the query returns what \<open>search\<close> on \<open>m\<close> returns in the same
  world: the same chunks in the same order with the same similarities (or the same
  exception).
\<close>

theorem save_then_load_search:
  assumes "embedding_model m2 = embedding_model m"
  shows "\<exists>m'. load directory name m2 (save directory name m w) = (Inr (length (chunks m)), m')
           \<and> search svc m' query k w0 = search svc m query k w0"
proof -
  have "search svc (m2 \<lparr> index := index m, chunks := chunks m \<rparr>) query k w0 = search svc m query k w0"
    by (rule search_depends_on) (simp_all add: assms)
  then show ?thesis by (simp add: load_after_save)
qed


theorem save_then_load_search_witness:
  "\<exists>m'. load ''vector_stores'' ''default'' (new_manager ''m'' 1536)
             (save ''vector_stores'' ''default'' manager1 world0) = (Inr 1, m')
     \<and> search svc_len m' ''What?'' 1 world0 = search svc_len manager1 ''What?'' 1 world0
     \<and> fst (search svc_len m' ''What?'' 1 world0) = Inr [(chunk_ab, 1 / 10)]"
proof -
  have h: "embedding_model (new_manager ''m'' 1536) = embedding_model manager1"
    by (simp add: new_manager_def manager1_def)
  have e: "fst (search svc_len manager1 ''What?'' 1 world0) = Inr [(chunk_ab, 1 / 10)]"
    by code_simp
  from save_then_load_search [OF h, of "''vector_stores''" "''default''" world0 svc_len "''What?''" 1 world0]
  show ?thesis using e by (auto simp add: manager1_def)
qed

text \<open>
  C4, as stated, fails when the loading manager was constructed with another embedding
  model: \<open>load\<close> replaces the index and the chunk list and keeps the manager's own model, so
  the query is embedded by that model. Here the loaded store answers with similarity
  \<open>1 / 26\<close> where the saved one answers with \<open>1 / 17\<close>.
\<close>

theorem load_keeps_the_loaders_model:
  "fst (load ''vector_stores'' ''default'' (new_manager ''mm'' 1)
         (save ''vector_stores'' ''default'' manager1 world0)) = Inr 1
   \<and> fst (search svc_by_model
           (snd (load ''vector_stores'' ''default'' (new_manager ''mm'' 1)
                  (save ''vector_stores'' ''default'' manager1 world0)))
           ''What?'' 1 world0) = Inr [(chunk_ab, 1 / 26)]
   \<and> fst (search svc_by_model manager1 ''What?'' 1 world0) = Inr [(chunk_ab, 1 / 17)]
   \<and> fst (search svc_by_model
           (snd (load ''vector_stores'' ''default'' (new_manager ''mm'' 1)
                  (save ''vector_stores'' ''default'' manager1 world0)))
           ''What?'' 1 world0)
       \<noteq> fst (search svc_by_model manager1 ''What?'' 1 world0)"
  by code_simp

lemma l2sqr_nonneg: "0 \<le> l2sqr x y"
  unfolding l2sqr_def by (rule sum_list_nonneg) auto

lemma search_results_valid:
  assumes "\<forall>p \<in> set xs. - int (length cs) \<le> fst p \<and> fst p < int (length cs) \<and> 0 \<le> snd p"
  shows "\<exists>rs. search_results cs xs = Inr rs \<and> length rs = length xs
           \<and> map snd rs = map (\<lambda>p. 1 / (1 + snd p)) xs"
  using assms
proof (induction xs)
  case Nil
  show ?case by simp
next
  case (Cons x xs)
  obtain i d where x: "x = (i, d)" by (cases x)
  from Cons.prems x have r: "- int (length cs) \<le> i" "i < int (length cs)" "0 \<le> d"
    by auto
  from r obtain c where c: "py_index cs i = Inr c"
    by (cases "0 \<le> i") (auto simp add: py_index_def)
  from Cons.IH Cons.prems obtain rs where rs: "search_results cs xs = Inr rs"
    "length rs = length xs" "map snd rs = map (\<lambda>p. 1 / (1 + snd p)) xs"
    by auto
  from r c rs x show ?case by simp
qed

lemma similarity_antitone:
  assumes "sorted ds" "\<forall>d \<in> set ds. (0::rat) \<le> d"
  shows "sorted_wrt (\<ge>) (map (\<lambda>d. 1 / (1 + d)) ds)"
proof -
  have "sorted_wrt (\<lambda>x y. 1 / (1 + y) \<le> 1 / (1 + x)) ds"
  proof (rule sorted_wrt_mono_rel [of ds "(\<le>)"])
    fix x y assume "x \<in> set ds" "y \<in> set ds" "x \<le> y"
    with assms(2) show "1 / (1 + y) \<le> 1 / (1 + x)"
      by (intro divide_left_mono) (auto intro: mult_pos_pos add_pos_nonneg)
  next
    show "sorted_wrt (\<le>) ds" using assms(1) by simp
  qed
  then show ?thesis by (simp add: sorted_wrt_map)
qed

lemma index_search_rows:
  assumes "length q = dim ix" "0 < k"
  shows "\<exists>ds ls. index_search ix q k = Inr (ds, ls)
           \<and> length ds = nat k \<and> length ls = nat k
           \<and> (\<forall>p \<in> set (zip ls ds). - 1 \<le> fst p \<and> fst p < int (length (vectors ix)) \<and> 0 \<le> snd p)
           \<and> (nat k \<le> length (vectors ix) \<longrightarrow> sorted ds)"
proof -
  define n where "n = length (vectors ix)"
  define scored where "scored = zip (map (l2sqr q) (vectors ix)) (map int [0 ..< n])"
  define best where "best = take (nat k) (sort_key fst scored)"
  define filled where "filled = best @ replicate (nat k - length best) (FLT_MAX, - 1)"
  have res: "index_search ix q k = Inr (map fst filled, map snd filled)"
    using assms by (simp add: index_search_def Let_def filled_def best_def scored_def n_def)
  have z: "zip (map snd filled) (map fst filled) = map (\<lambda>p. (snd p, fst p)) filled"
    by (simp add: zip_map_map zip_same_conv_map)
  have sc: "0 \<le> fst p \<and> 0 \<le> snd p \<and> snd p < int n" if "p \<in> set scored" for p
  proof -
    obtain a b where p: "p = (a, b)" by (cases p)
    from that p have "a \<in> set (map (l2sqr q) (vectors ix))" "b \<in> set (map int [0 ..< n])"
      unfolding scored_def by (auto dest: set_zip_leftD set_zip_rightD)
    with p show ?thesis by (auto simp add: l2sqr_nonneg)
  qed
  have bs: "0 \<le> fst p \<and> 0 \<le> snd p \<and> snd p < int n" if "p \<in> set best" for p
  proof -
    from that have "p \<in> set (sort_key fst scored)"
      unfolding best_def by (rule in_set_takeD)
    then have "p \<in> set scored" by simp
    then show ?thesis by (rule sc)
  qed
  have fl: "0 \<le> fst p \<and> - 1 \<le> snd p \<and> snd p < int n" if "p \<in> set filled" for p
  proof -
    from that have "p \<in> set best \<or> (p = (FLT_MAX, - 1) \<and> length best < nat k)"
      by (auto simp add: filled_def)
    then show ?thesis
    proof
      assume "p \<in> set best"
      from bs [OF this] show ?thesis by simp
    next
      assume a: "p = (FLT_MAX, - 1) \<and> length best < nat k"
      then have "0 \<le> fst p \<and> - 1 \<le> snd p" by (simp add: FLT_MAX_def)
      moreover from a have "snd p < int n" by simp
      ultimately show ?thesis by simp
    qed
  qed
  have lb: "length best = min n (nat k)"
    by (simp add: best_def scored_def n_def)
  have len: "length filled = nat k"
    by (simp add: filled_def lb)
  have srt: "sorted (map fst filled)" if "nat k \<le> n"
  proof -
    from that lb have "filled = best" by (simp add: filled_def)
    then have "map fst filled = take (nat k) (map fst (sort_key fst scored))"
      by (simp add: best_def take_map)
    moreover have "sorted (map fst (sort_key fst scored))" by (rule sorted_sort_key)
    ultimately show ?thesis by (simp add: sorted_wrt_take)
  qed
  have all: "\<forall>p \<in> set (zip (map snd filled) (map fst filled)).
               - 1 \<le> fst p \<and> fst p < int n \<and> 0 \<le> snd p"
    unfolding z using fl by auto
  show ?thesis
  proof (intro exI conjI)
    show "index_search ix q k = Inr (map fst filled, map snd filled)" by (rule res)
    show "length (map fst filled) = nat k" "length (map snd filled) = nat k"
      by (simp_all add: len)
    show "\<forall>p \<in> set (zip (map snd filled) (map fst filled)).
            - 1 \<le> fst p \<and> fst p < int (length (vectors ix)) \<and> 0 \<le> snd p"
      using all by (simp add: n_def)
    show "nat k \<le> length (vectors ix) \<longrightarrow> sorted (map fst filled)"
      using srt by (simp add: n_def)
  qed
qed

lemma search_returns_k:
  assumes "chunks m \<noteq> []" and "length (vectors (index m)) = length (chunks m)" and "0 < k"
    and "create_embedding svc m query w = (Inr qe, w')" and "length qe = dim (index m)"
  shows "\<exists>rs. search svc m query k w = (Inr rs, w') \<and> length rs = nat k
           \<and> (nat k \<le> length (chunks m) \<longrightarrow> sorted_wrt (\<ge>) (map snd rs))"
proof -
  from index_search_rows [of qe "index m" k] assms(3,5) obtain ds ls where
    r: "index_search (index m) qe k = Inr (ds, ls)" "length ds = nat k" "length ls = nat k"
      "\<forall>p \<in> set (zip ls ds). - 1 \<le> fst p \<and> fst p < int (length (vectors (index m))) \<and> 0 \<le> snd p"
      "nat k \<le> length (vectors (index m)) \<longrightarrow> sorted ds"
    by auto
  from assms(1) have "1 \<le> int (length (chunks m))"
    by (cases "chunks m") simp_all
  with r(4) assms(2) have
    "\<forall>p \<in> set (zip ls ds). - int (length (chunks m)) \<le> fst p \<and> fst p < int (length (chunks m)) \<and> 0 \<le> snd p"
    by fastforce
  from search_results_valid [OF this] obtain rs where
    rs: "search_results (chunks m) (zip ls ds) = Inr rs" "length rs = length (zip ls ds)"
      "map snd rs = map (\<lambda>p. 1 / (1 + snd p)) (zip ls ds)"
    by auto
  have s: "search svc m query k w = (Inr rs, w')"
    using assms(1,4) r(1) rs(1) by (simp add: search_def)
  have "map snd (zip ls ds) = ds"
    using r(2,3) by simp
  then have "map (\<lambda>d. 1 / (1 + d)) ds = map (\<lambda>d. 1 / (1 + d)) (map snd (zip ls ds))"
    by simp
  also have "\<dots> = map (\<lambda>p. 1 / (1 + snd p)) (zip ls ds)"
    by (simp only: map_map comp_def)
  finally have m: "map snd rs = map (\<lambda>d. 1 / (1 + d)) ds"
    using rs(3) by simp
  have nn: "\<forall>d \<in> set ds. 0 \<le> d"
    using r(4) r(2,3) by (metis (no_types, lifting) in_set_impl_in_set_zip2 snd_conv)
  from s rs(2) r m nn assms(2) similarity_antitone [of ds] show ?thesis
    by auto
qed

text \<open>
  C1. For a store with \<open>n > 0\<close> entries and a query the service embeds: for \<open>0 < k \<le> n\<close>,
  \<open>search\<close> returns exactly \<open>k\<close> pairs, ordered by non-increasing similarity
  \<open>1 / (1 + d)\<close> (\<open>search_returns_k\<close>). For \<open>k > n\<close> it returns \<open>k\<close> pairs too, not the \<open>n\<close>
  stored entries: the index fills the positions it has no vector for with the label \<open>-1\<close>,
  the test \<open>idx < len(self.chunks)\<close> lets \<open>-1\<close> through, and \<open>self.chunks[-1]\<close> is the last
  chunk. With one stored chunk and \<open>k = 2\<close> the result holds that chunk twice, the second
  time with similarity \<open>1 / (1 + FLT_MAX)\<close>.
\<close>

theorem search_pads_with_last_chunk:
  "fst (search svc_len manager1 ''What?'' 2 world0)
     = Inr [(chunk_ab, 1 / 10), (chunk_ab, 1 / (1 + FLT_MAX))]
   \<and> chunks manager1 = [chunk_ab] \<and> vectors (index manager1) = [[2]]"
  by code_simp

lemma accumulate_closed:
  "accumulate mx results (parts, srcs, len) =
     (parts @ map (content \<circ> fst) (fitting mx len results),
      srcs @ map cite_of (fitting mx len results),
      len + sum_list (map (int \<circ> length \<circ> content \<circ> fst) (fitting mx len results)))"
  by (induction results arbitrary: parts srcs len) (auto simp add: cite_of_def Let_def)

lemma fitting_prefix: "\<exists>rest. results = fitting mx len results @ rest"
  by (induction results arbitrary: len) auto

lemma fitting_sum:
  "len \<le> mx \<Longrightarrow> len + sum_list (map (int \<circ> length \<circ> content \<circ> fst) (fitting mx len results)) \<le> mx"
proof (induction results arbitrary: len)
  case Nil
  then show ?case by simp
next
  case (Cons r results)
  show ?case
  proof (cases "len + int (length (content (fst r))) > mx")
    case True
    with Cons.prems show ?thesis by simp
  next
    case False
    with Cons.IH [of "len + int (length (content (fst r)))"] show ?thesis
      by (simp add: add.assoc)
  qed
qed

lemma fitting_stops:
  "fitting mx len results @ r # rest = results \<Longrightarrow>
     len + sum_list (map (int \<circ> length \<circ> content \<circ> fst) (fitting mx len results))
       + int (length (content (fst r))) > mx"
proof (induction results arbitrary: len)
  case Nil
  then show ?case by simp
next
  case (Cons x results)
  show ?case
  proof (cases "len + int (length (content (fst x))) > mx")
    case True
    with Cons.prems show ?thesis by simp
  next
    case False
    with Cons.prems have "fitting mx (len + int (length (content (fst x)))) results @ r # rest = results"
      by simp
    from Cons.IH [OF this] False show ?thesis
      by (simp add: add.assoc)
  qed
qed

lemma length_join:
  "parts \<noteq> [] \<Longrightarrow>
     int (length (join sep parts)) = sum_list (map (int \<circ> length) parts)
       + int (length sep) * (int (length parts) - 1)"
  by (induction sep parts rule: join.induct) (simp_all add: algebra_simps)

lemma get_context_closed:
  assumes "search svc m query k w = (Inr results, w')"
  shows "get_context_for_query svc m query k mx w =
           (Inr (join separator (map (content \<circ> fst) (fitting mx 0 results)),
                 map cite_of (fitting mx 0 results)), w')"
  using assms by (cases results) (simp_all add: get_context_for_query_def accumulate_closed Let_def)

text \<open>
  C2. \<open>get_context_for_query\<close> takes the search results in order as long as the sum of the
  lengths of the chunk contents stays within \<open>max_context_length\<close>, stops before the first
  chunk that would exceed it, and returns one source entry per chunk taken
  (\<open>get_context_closed\<close>, \<open>fitting_prefix\<close>, \<open>fitting_sum\<close>, \<open>fitting_stops\<close>). The budget
  counts the chunk contents only: the separators between them (7 characters each,
  \<open>length_join\<close>) are not counted, so the context string can be longer than
  \<open>max_context_length\<close>. With the chunks \<open>ab\<close> and \<open>cd\<close>, \<open>k = 2\<close> and
  \<open>max_context_length = 4\<close> the context has 11 characters.
\<close>

theorem get_context_longer_than_max_context_length:
  "fst (get_context_for_query svc_len manager2 ''What?'' 2 4 world0)
     = Inr (''cd\<newline>\<newline>---\<newline>\<newline>ab'',
            [\<lparr> cite_source = Str ''doc'', cite_page = Num 1, cite_similarity = 1 / 5 \<rparr>,
             \<lparr> cite_source = Str ''doc'', cite_page = Num 1, cite_similarity = 1 / 10 \<rparr>])
   \<and> int (length ''cd\<newline>\<newline>---\<newline>\<newline>ab'') = 11 \<and> (11 :: int) > 4"
  by code_simp

lemma batch_step_eq:
  "batch_step svc m (acc, w) b =
     (acc @ batch_vectors svc m (embed_calls w) b, w \<lparr> embed_calls := Suc (embed_calls w) \<rparr>)"
  by (simp add: batch_step_def batch_vectors_def Let_def split: sum.splits)

lemma batch_loop_closed:
  "foldl (batch_step svc m) (acc, w) bs =
     (acc @ batch_results svc m (embed_calls w) bs,
      w \<lparr> embed_calls := embed_calls w + length bs \<rparr>)"
  by (induction bs arbitrary: acc w) (simp_all add: batch_step_eq)

lemma concat_batches: "0 < n \<Longrightarrow> concat (batches n xs) = xs"
proof (induction n xs rule: batches.induct)
  case (1 n xs)
  show ?case
  proof (cases "xs = []")
    case True
    then show ?thesis by (simp add: batches.simps [of n "[]"])
  next
    case False
    with 1 show ?thesis by (simp add: batches.simps [of n xs])
  qed
qed






lemma create_embeddings_batch_closed:
  "0 < batch_size \<Longrightarrow>
     create_embeddings_batch svc m texts batch_size w =
       (Inr (batch_results svc m (embed_calls w) (batches (nat batch_size) texts)),
        w \<lparr> embed_calls := embed_calls w + length (batches (nat batch_size) texts) \<rparr>)"
  by (simp add: create_embeddings_batch_def batch_loop_closed)





lemma produced_for_mono:
  assumes "produced_for svc k d t v" and "k \<le> k'"
  shows "produced_for svc k' d t v"
proof -
  from assms(1) obtain model n batch j where
    h: "n < k" "j < length batch" "batch ! j = t"
      "case svc model n batch of Inr vs \<Rightarrow> j < length vs \<and> vs ! j = v | Inl e \<Rightarrow> v = replicate d 0"
    unfolding produced_for_def by blast
  from h(1) assms(2) have "n < k'" by simp
  with h(2-4) show ?thesis unfolding produced_for_def by blast
qed

lemma produced_for_dim:
  assumes "produced_for svc k d t v" and "length v = d'"
  shows "produced_for svc k d' t v"
proof -
  from assms(1) obtain model n batch j where
    h: "n < k" "j < length batch" "batch ! j = t"
      "case svc model n batch of Inr vs \<Rightarrow> j < length vs \<and> vs ! j = v | Inl e \<Rightarrow> v = replicate d 0"
    unfolding produced_for_def by blast
  have "case svc model n batch of Inr vs \<Rightarrow> j < length vs \<and> vs ! j = v | Inl e \<Rightarrow> v = replicate d' 0"
  proof (cases "svc model n batch")
    case (Inl e)
    with h(4) have "v = replicate d 0" by simp
    with assms(2) have "d = d'" by simp
    with Inl h(4) show ?thesis by simp
  next
    case (Inr vs)
    with h(4) show ?thesis by simp
  qed
  with h(1-3) show ?thesis unfolding produced_for_def by blast
qed

lemma coindexed_mono:
  "coindexed svc k cs ix \<Longrightarrow> k \<le> k' \<Longrightarrow> coindexed svc k' cs ix"
  unfolding coindexed_def by (erule list_all2_mono) (rule produced_for_mono)

lemma files_ok_mono:
  assumes "files_ok svc k fs" and "k \<le> k'"
  shows "files_ok svc k' fs"
  unfolding files_ok_def
proof (intro allI impI)
  fix base ix
  assume "fs (index_path base) = Some (FaissFile ix)"
  with assms(1) obtain cs md where
    "fs (chunks_path base) = Some (PickleFile cs)" "fs (metadata_path base) = Some (JsonFile md)"
    "coindexed svc k cs ix"
    unfolding files_ok_def by blast
  with assms(2) coindexed_mono [of svc k cs ix k']
  show "\<exists>cs md. fs (chunks_path base) = Some (PickleFile cs)
          \<and> fs (metadata_path base) = Some (JsonFile md) \<and> coindexed svc k' cs ix"
    by blast
qed

lemma batch_vectors_produced:
  assumes "answers_every_text svc"
  shows "list_all2 (produced_for svc (Suc n) (dimension m)) b (batch_vectors svc m n b)"
proof -
  have l: "length (batch_vectors svc m n b) = length b"
    using assms by (auto simp add: batch_vectors_def answers_every_text_def split: sum.splits)
  have "produced_for svc (Suc n) (dimension m) (b ! j) (batch_vectors svc m n b ! j)"
    if j: "j < length b" for j
  proof -
    have "case svc (embedding_model m) n b of
            Inr vs \<Rightarrow> j < length vs \<and> vs ! j = batch_vectors svc m n b ! j
          | Inl e \<Rightarrow> batch_vectors svc m n b ! j = replicate (dimension m) 0"
      using assms j by (auto simp add: batch_vectors_def answers_every_text_def split: sum.splits)
    with j show ?thesis
      unfolding produced_for_def by (intro exI [of _ "embedding_model m"] exI [of _ n] exI [of _ b] exI [of _ j]) simp
  qed
  with l show ?thesis by (simp add: list_all2_conv_all_nth)
qed

lemma batch_results_produced:
  assumes "answers_every_text svc"
  shows "list_all2 (produced_for svc (n + length bs) (dimension m)) (concat bs)
           (batch_results svc m n bs)"
proof (induction bs arbitrary: n)
  case Nil
  show ?case by simp
next
  case (Cons b bs)
  have "list_all2 (produced_for svc (Suc n) (dimension m)) b (batch_vectors svc m n b)"
    by (rule batch_vectors_produced [OF assms])
  then have h: "list_all2 (produced_for svc (n + length (b # bs)) (dimension m)) b
                  (batch_vectors svc m n b)"
    by (rule list_all2_mono) (erule produced_for_mono, simp)
  from Cons.IH [of "Suc n"]
  have t: "list_all2 (produced_for svc (n + length (b # bs)) (dimension m)) (concat bs)
             (batch_results svc m (Suc n) bs)"
    by simp
  from h t show ?case by (simp add: list_all2_appendI)
qed

lemma add_documents_result:
  "add_documents svc cs (m, w) = (r, m', w') \<Longrightarrow>
     files w' = files w
     \<and> embed_calls w' =
         embed_calls w + (if cs = [] then 0 else length (batches 100 (map content cs)))
     \<and> (m' = m
        \<or> (list_all (\<lambda>v. length v = dim (index m))
              (batch_results svc m (embed_calls w) (batches 100 (map content cs)))
           \<and> m' = m \<lparr> index := (index m) \<lparr> vectors := vectors (index m)
                          @ batch_results svc m (embed_calls w) (batches 100 (map content cs)) \<rparr>,
                      chunks := chunks m @ cs,
                      embeddings := embeddings m
                          @ batch_results svc m (embed_calls w) (batches 100 (map content cs)) \<rparr>))"
  by (auto simp add: add_documents_def create_embeddings_batch_closed np_array_def index_add_def Let_def
      split: if_splits sum.splits)

lemma coindexed_new:
  assumes "answers_every_text svc"
    and "list_all (\<lambda>v. length v = d) (batch_results svc m n (batches 100 (map content cs)))"
  shows "list_all2 (produced_for svc (n + length (batches 100 (map content cs))) d) (map content cs)
           (batch_results svc m n (batches 100 (map content cs)))"
proof -
  let ?E = "batch_results svc m n (batches 100 (map content cs))"
  let ?k = "n + length (batches 100 (map content cs))"
  have "concat (batches 100 (map content cs)) = map content cs"
    by (simp add: concat_batches)
  with batch_results_produced [OF assms(1), of n "batches 100 (map content cs)" m]
  have p: "list_all2 (produced_for svc ?k (dimension m)) (map content cs) ?E"
    by simp
  have "produced_for svc ?k d (map content cs ! i) (?E ! i)" if "i < length ?E" for i
  proof -
    from p that have "produced_for svc ?k (dimension m) (map content cs ! i) (?E ! i)"
      by (simp add: list_all2_conv_all_nth)
    moreover from assms(2) that have "length (?E ! i) = d"
      by (simp add: list_all_length)
    ultimately show ?thesis by (rule produced_for_dim)
  qed
  with p show ?thesis by (simp add: list_all2_conv_all_nth)
qed

lemma add_documents_inv:
  assumes "answers_every_text svc" and "store_inv svc (m, w)"
  shows "store_inv svc (snd (add_documents svc cs (m, w)))"
proof -
  let ?E = "batch_results svc m (embed_calls w) (batches 100 (map content cs))"
  obtain r m' w' where e: "add_documents svc cs (m, w) = (r, m', w')"
    by (cases "add_documents svc cs (m, w)") auto
  from add_documents_result [OF e] have
    f: "files w' = files w"
    and k: "embed_calls w' = embed_calls w + (if cs = [] then 0 else length (batches 100 (map content cs)))"
    and c: "m' = m \<or> (list_all (\<lambda>v. length v = dim (index m)) ?E
              \<and> m' = m \<lparr> index := (index m) \<lparr> vectors := vectors (index m) @ ?E \<rparr>,
                         chunks := chunks m @ cs, embeddings := embeddings m @ ?E \<rparr>)"
    by simp_all
  from k have le: "embed_calls w \<le> embed_calls w'" by simp
  from assms(2) have old: "coindexed svc (embed_calls w) (chunks m) (index m)"
    and fo: "files_ok svc (embed_calls w) (files w)"
    by (simp_all add: store_inv_def)
  from fo le f have fo': "files_ok svc (embed_calls w') (files w')"
    by (simp add: files_ok_mono)
  from old le have old': "coindexed svc (embed_calls w') (chunks m) (index m)"
    by (rule coindexed_mono)
  have "coindexed svc (embed_calls w') (chunks m') (index m')"
  proof (cases "cs = []")
    case True
    with e have "m' = m" by (simp add: add_documents_def)
    with old' show ?thesis by simp
  next
    case False
    from c show ?thesis
    proof
      assume "m' = m"
      with old' show ?thesis by simp
    next
      assume a: "list_all (\<lambda>v. length v = dim (index m)) ?E
                \<and> m' = m \<lparr> index := (index m) \<lparr> vectors := vectors (index m) @ ?E \<rparr>,
                           chunks := chunks m @ cs, embeddings := embeddings m @ ?E \<rparr>"
      from a coindexed_new [OF assms(1), of "dim (index m)" m "embed_calls w" cs]
      have "list_all2 (produced_for svc (embed_calls w + length (batches 100 (map content cs)))
              (dim (index m))) (map content cs) ?E"
        by simp
      with k False have "list_all2 (produced_for svc (embed_calls w') (dim (index m))) (map content cs) ?E"
        by simp
      with old' a show ?thesis
        by (simp add: coindexed_def list_all2_appendI)
    qed
  qed
  with fo' show ?thesis by (simp add: e store_inv_def)
qed

lemma search_world:
  "files (snd (search svc m query k w)) = files w
   \<and> embed_calls w \<le> embed_calls (snd (search svc m query k w))"
  by (simp add: search_def create_embedding_def Let_def split: sum.splits list.splits prod.splits)

lemma files_after_save_any:
  "files (save directory name m w) (index_path b) =
     (if b = store_base directory name then Some (FaissFile (index m)) else files w (index_path b))"
  "files (save directory name m w) (chunks_path b) =
     (if b = store_base directory name then Some (PickleFile (chunks m)) else files w (chunks_path b))"
  "files (save directory name m w) (metadata_path b) =
     (if b = store_base directory name
      then Some (JsonFile \<lparr> md_embedding_model = embedding_model m, md_dimension = dimension m,
                             num_chunks = length (chunks m), num_embeddings = length (embeddings m) \<rparr>)
      else files w (metadata_path b))"
  by (simp_all add: save_def Let_def)

lemma embed_calls_save: "embed_calls (save directory name m w) = embed_calls w"
  by (simp add: save_def Let_def)

lemma save_inv:
  assumes "store_inv svc (m, w)"
  shows "store_inv svc (m, save directory name m w)"
  using assms by (auto simp add: store_inv_def files_ok_def files_after_save_any embed_calls_save)

lemma load_inv:
  assumes "store_inv svc (m, w)"
  shows "store_inv svc (snd (load directory name m w), w)"
proof (cases "files w (index_path (store_base directory name))")
  case None
  with assms show ?thesis by (simp add: load_def)
next
  case (Some f)
  show ?thesis
  proof (cases f)
    case (FaissFile ix)
    with Some assms obtain cs md where
      "files w (chunks_path (store_base directory name)) = Some (PickleFile cs)"
      "files w (metadata_path (store_base directory name)) = Some (JsonFile md)"
      "coindexed svc (embed_calls w) cs ix"
      unfolding store_inv_def files_ok_def by fastforce
    with Some FaissFile assms show ?thesis
      by (simp add: load_def store_inv_def)
  next
    case (PickleFile cs)
    with Some assms show ?thesis by (simp add: load_def)
  next
    case (JsonFile md)
    with Some assms show ?thesis by (simp add: load_def)
  qed
qed

lemma store_step_inv:
  assumes "answers_every_text svc" and "store_inv svc mw"
  shows "store_inv svc (store_step svc mw op)"
proof -
  obtain m w where mw: "mw = (m, w)" by (cases mw)
  show ?thesis
  proof (cases op)
    case (AddDocuments cs)
    with assms mw show ?thesis by (simp add: add_documents_inv)
  next
    case (Search query k)
    from assms(2) mw search_world [of svc m query k w] show ?thesis
      unfolding Search mw by (auto simp add: store_inv_def intro: coindexed_mono files_ok_mono)
  next
    case (Save directory name)
    with assms mw show ?thesis by (simp add: save_inv)
  next
    case (Load directory name)
    with assms mw show ?thesis by (simp add: load_inv)
  qed
qed

lemma run_store_inv:
  assumes "answers_every_text svc"
  shows "store_inv svc mw \<Longrightarrow> store_inv svc (run_store svc mw ops)"
  unfolding run_store_def
  by (induction ops arbitrary: mw) (simp_all add: store_step_inv [OF assms])

lemma store_step_embeddings:
  assumes "embeddings (fst mw) = vectors (index (fst mw))" and "\<not> is_load op"
  shows "embeddings (fst (store_step svc mw op)) = vectors (index (fst (store_step svc mw op)))"
proof -
  obtain m w where mw: "mw = (m, w)" by (cases mw)
  show ?thesis
  proof (cases op)
    case (AddDocuments cs)
    obtain r m' w' where e: "add_documents svc cs (m, w) = (r, m', w')"
      by (cases "add_documents svc cs (m, w)") auto
    from add_documents_result [OF e] assms(1) mw AddDocuments e show ?thesis
      by auto
  next
    case (Search query k)
    with assms mw show ?thesis by simp
  next
    case (Save directory name)
    with assms mw show ?thesis by simp
  next
    case (Load directory name)
    with assms show ?thesis by simp
  qed
qed

lemma run_store_embeddings:
  "embeddings (fst mw) = vectors (index (fst mw)) \<Longrightarrow> list_all (\<lambda>op. \<not> is_load op) ops \<Longrightarrow>
     embeddings (fst (run_store svc mw ops)) = vectors (index (fst (run_store svc mw ops)))"
  unfolding run_store_def
  by (induction ops arbitrary: mw) (simp_all add: store_step_embeddings)

text \<open>
  C3, as amended. For every run of \<open>add_documents\<close>, \<open>search\<close>, \<open>save\<close> and \<open>load\<close> operations,
  with an embedding service that answers a request with one vector per text, from a manager
  and files that satisfy the invariant (a new manager with no files does): the chunk list
  and the vectors held by the index have the same length and are co-indexed. The vector at
  position \<open>i\<close> was produced for the chunk at position \<open>i\<close>: a request made before had the
  content of that chunk at a position of its input, and the vector is what the answer has
  at that position, or, when that request failed, the zero vector of the dimension of the
  index. The saved stores stay consistent in the same sense. The separate \<open>embeddings\<close> list
  agrees with the vectors of the index in every run without a \<open>load\<close>.
\<close>

theorem chunks_and_index_coindexed:
  assumes "answers_every_text svc" and "store_inv svc mw"
  shows "coindexed svc (embed_calls (snd (run_store svc mw ops)))
           (chunks (fst (run_store svc mw ops))) (index (fst (run_store svc mw ops)))
         \<and> length (chunks (fst (run_store svc mw ops)))
             = length (vectors (index (fst (run_store svc mw ops))))
         \<and> files_ok svc (embed_calls (snd (run_store svc mw ops))) (files (snd (run_store svc mw ops)))
         \<and> (embeddings (fst mw) = vectors (index (fst mw)) \<and> list_all (\<lambda>op. \<not> is_load op) ops \<longrightarrow>
              embeddings (fst (run_store svc mw ops)) = vectors (index (fst (run_store svc mw ops))))"
proof -
  from run_store_inv [OF assms] have i: "store_inv svc (run_store svc mw ops)" .
  then have c: "coindexed svc (embed_calls (snd (run_store svc mw ops)))
                  (chunks (fst (run_store svc mw ops))) (index (fst (run_store svc mw ops)))"
    by (simp add: store_inv_def)
  then have "length (map content (chunks (fst (run_store svc mw ops))))
               = length (vectors (index (fst (run_store svc mw ops))))"
    unfolding coindexed_def by (rule list_all2_lengthD)
  with i c run_store_embeddings [of mw ops svc] show ?thesis
    by (simp add: store_inv_def)
qed

lemma svc_len_answers: "answers_every_text svc_len"
  by (simp add: answers_every_text_def svc_len_def)

lemma fresh_store_inv: "store_inv svc (new_manager model d, world0)"
  by (simp add: store_inv_def coindexed_def files_ok_def new_manager_def world0_def)

lemma reload_run:
  "chunks (fst (run_store svc_len (new_manager ''m'' 1, world0) ops_reload)) = [chunk_ab]
   \<and> vectors (index (fst (run_store svc_len (new_manager ''m'' 1, world0) ops_reload))) = [[2]]
   \<and> embed_calls (snd (run_store svc_len (new_manager ''m'' 1, world0) ops_reload)) = 2"
  by code_simp

theorem chunks_and_index_coindexed_witness:
  "answers_every_text svc_len \<and> store_inv svc_len (new_manager ''m'' 1, world0)
   \<and> coindexed svc_len 2 [chunk_ab] (index (fst (run_store svc_len (new_manager ''m'' 1, world0) ops_reload)))
   \<and> vectors (index (fst (run_store svc_len (new_manager ''m'' 1, world0) ops_reload))) = [[2]]
   \<and> length (chunks (fst (run_store svc_len (new_manager ''m'' 1, world0) ops_reload)))
       = length (vectors (index (fst (run_store svc_len (new_manager ''m'' 1, world0) ops_reload))))"
  using chunks_and_index_coindexed [OF svc_len_answers fresh_store_inv, of "''m''" 1 ops_reload]
    svc_len_answers fresh_store_inv [of svc_len "''m''" 1] reload_run
  by simp

text \<open>
  C3, as stated, fails for the \<open>embeddings\<close> list: after adding one chunk, saving, adding a
  second chunk and loading the saved store, the manager has one chunk and two embeddings.
\<close>

theorem embeddings_not_reloaded:
  "length (chunks (fst (run_store svc_len (new_manager ''m'' 1, world0) ops_reload))) = 1
   \<and> length (embeddings (fst (run_store svc_len (new_manager ''m'' 1, world0) ops_reload))) = 2
   \<and> length (chunks (fst (run_store svc_len (new_manager ''m'' 1, world0) ops_reload)))
       \<noteq> length (embeddings (fst (run_store svc_len (new_manager ''m'' 1, world0) ops_reload)))"
  by code_simp

end
